theory Spec2Isabelle
  imports Complex_Main "HOL-Library.Word" "HOL-Library.Sublist"
begin

unbundle bit_operations_syntax

section \<open>Values handled by ObstacleController\<close>

text \<open>
  A C++ \<open>double\<close>.  ObstacleController.cc never computes with the doubles it
  handles in \<open>load\<close>, \<open>save\<close> and the reconciliation callbacks: it stores them,
  copies them and (through \<open>QGeoCoordinate::isValid\<close>) compares them with fixed
  bounds.  A double is therefore a number or the not-a-number value that a
  default-constructed \<open>QGeoCoordinate\<close> holds in each field.
\<close>

datatype double = NaN | Fin real

text \<open>
  \<open>QGeoCoordinate\<close> (Qt Positioning).  \<open>QGeoCoordinate()\<close> holds NaN in every
  field; \<open>isValid()\<close> asks for a latitude in [-90, 90] and a longitude in
  [-180, 180].  Qt compares coordinates field by field and takes two NaN fields
  as equal (its approximate comparison of finite fields is taken as equality).
\<close>

record QGeoCoordinate =
  latitude :: double
  longitude :: double
  altitude :: double

definition QGeoCoordinate_default :: QGeoCoordinate where
  "QGeoCoordinate_default = \<lparr>latitude = NaN, longitude = NaN, altitude = NaN\<rparr>"

definition isValid :: "QGeoCoordinate \<Rightarrow> bool" where
  "isValid c =
     (case latitude c of
        NaN \<Rightarrow> False
      | Fin la \<Rightarrow>
          (case longitude c of
             NaN \<Rightarrow> False
           | Fin lo \<Rightarrow> - 90 \<le> la \<and> la \<le> 90 \<and> - 180 \<le> lo \<and> lo \<le> 180))"

definition setAltitude :: "double \<Rightarrow> QGeoCoordinate \<Rightarrow> QGeoCoordinate" where
  "setAltitude a c = c\<lparr>altitude := a\<rparr>"

subsection \<open>JSON values\<close>

text \<open>
  \<open>QJsonValue\<close> and \<open>QJsonObject\<close> (Qt Core).  An object is a list of key/value
  pairs read with \<open>map_of\<close>; \<open>json[key]\<close> on a missing key is the undefined
  value, here \<open>None\<close>.  \<open>toInt()\<close> is the number when the value is a whole
  double in the range of \<open>int\<close> and the default 0 otherwise; \<open>toArray()\<close> is
  the empty array for anything that is not an array.
\<close>

datatype json =
    JNull
  | JBool bool
  | JDouble double
  | JString string
  | JArray "json list"
  | JObject "(string \<times> json) list"

type_synonym QJsonObject = "(string \<times> json) list"

datatype json_type = T_Null | T_Bool | T_Double | T_String | T_Array | T_Object

fun type_of_json :: "json \<Rightarrow> json_type" where
  "type_of_json JNull = T_Null"
| "type_of_json (JBool b) = T_Bool"
| "type_of_json (JDouble d) = T_Double"
| "type_of_json (JString s) = T_String"
| "type_of_json (JArray vs) = T_Array"
| "type_of_json (JObject kvs) = T_Object"

definition obj_contains :: "QJsonObject \<Rightarrow> string \<Rightarrow> bool" where
  "obj_contains obj k = (map_of obj k \<noteq> None)"

definition obj_value :: "QJsonObject \<Rightarrow> string \<Rightarrow> json option" where
  "obj_value obj k = map_of obj k"

text \<open>\<open>json[key] = v\<close>: replaces the value of an existing key, adds the key otherwise.\<close>

fun obj_insert :: "string \<Rightarrow> json \<Rightarrow> QJsonObject \<Rightarrow> QJsonObject" where
  "obj_insert k v [] = [(k, v)]"
| "obj_insert k v ((k', v') # kvs) =
     (if k' = k then (k, v) # kvs else (k', v') # obj_insert k v kvs)"

definition toInt :: "json option \<Rightarrow> int" where
  "toInt v =
     (case v of
        Some (JDouble (Fin r)) \<Rightarrow>
          (if of_int \<lfloor>r\<rfloor> = r \<and> - 2147483648 \<le> r \<and> r \<le> 2147483647 then \<lfloor>r\<rfloor> else 0)
      | _ \<Rightarrow> 0)"

definition toArray :: "json option \<Rightarrow> json list" where
  "toArray v = (case v of Some (JArray vs) \<Rightarrow> vs | _ \<Rightarrow> [])"

subsection \<open>The vehicle\<close>

text \<open>
  What ObstacleController.cc reads from \<open>Vehicle\<close>: \<open>capabilityBits()\<close> (a
  \<open>uint64_t\<close>), \<open>maxProtoVersion()\<close> (an unsigned number, 100 times the protocol's
  major version) and \<open>initialPlanRequestComplete()\<close>.
\<close>

record Vehicle =
  capabilityBits :: "64 word"
  maxProtoVersion :: nat
  initialPlanRequestComplete :: bool

text \<open>
  \<open>ObstacleController::supported\<close>.  The MAVLink constant
  \<open>MAV_PROTOCOL_CAPABILITY_MISSION_FENCE\<close> is declared outside this file; it is
  the parameter \<open>fence\<close>.
\<close>

definition supported :: "64 word \<Rightarrow> Vehicle \<Rightarrow> bool" where
  "supported fence v = ((capabilityBits v AND fence) \<noteq> 0 \<and> 200 \<le> maxProtoVersion v)"


section \<open>Shapes and their serializers\<close>

text \<open>
  Modelled from the spec: \<open>QGCFencePolygon\<close> and \<open>QGCFenceCircle\<close> are declared
  outside ObstacleController.cc.  Section 3 of the spec gives their state: a
  polygon is an ordered sequence of vertices with an inclusion flag, a circle is
  a centre and a radius with an inclusion flag, and each carries the flags
  \<open>interactive\<close> and \<open>dirty\<close>.
\<close>

record QGCFencePolygon =
  poly_path :: "QGeoCoordinate list"
  poly_inclusion :: bool
  poly_interactive :: bool
  poly_dirty :: bool

record QGCFenceCircle =
  circ_center :: QGeoCoordinate
  circ_radius :: double
  circ_inclusion :: bool
  circ_interactive :: bool
  circ_dirty :: bool

text \<open>
  The shapes' serializers (\<open>loadFromJson\<close>, \<open>saveToJson\<close>) and copy constructors
  are outside the file as well, and the spec leaves their schema opaque ("object
  with required fields, produces ParseError on malformed").  They are parameters
  of the model.  \<open>polygon_loadFromJson\<close> stands for
  \<open>new QGCFencePolygon(false, this)\<close> followed by
  \<open>loadFromJson(object, true, errorString)\<close>: the error message, or the polygon.
  \<open>polygon_saveToJson\<close> is the object that \<open>saveToJson\<close> fills, starting from
  an empty one.
\<close>

record shape_ops =
  polygon_loadFromJson :: "QJsonObject \<Rightarrow> string + QGCFencePolygon"
  polygon_saveToJson :: "QGCFencePolygon \<Rightarrow> QJsonObject"
  polygon_copy :: "QGCFencePolygon \<Rightarrow> QGCFencePolygon"
  circle_loadFromJson :: "QJsonObject \<Rightarrow> string + QGCFenceCircle"
  circle_saveToJson :: "QGCFenceCircle \<Rightarrow> QJsonObject"
  circle_copy :: "QGCFenceCircle \<Rightarrow> QGCFenceCircle"

section \<open>The transport\<close>

text \<open>
  \<open>ObstacleManager\<close>, as ObstacleController.cc sees it: the progress flag, the
  values it last reported, and the requests the controller has issued to it.
  How the transport reacts to a request is its own business; the model records
  the request.
\<close>

datatype manager_call =
    Manager_removeAll
  | Manager_loadFromVehicle
  | Manager_sendToVehicle QGeoCoordinate "QGCFencePolygon list" "QGCFenceCircle list"

record ObstacleManager =
  inProgress :: bool
  manager_breachReturnPoint :: QGeoCoordinate
  manager_polygons :: "QGCFencePolygon list"
  manager_circles :: "QGCFenceCircle list"
  calls :: "manager_call list"

definition manager_call :: "manager_call \<Rightarrow> ObstacleManager \<Rightarrow> ObstacleManager" where
  "manager_call c m = m\<lparr>calls := calls m @ [c]\<rparr>"

section \<open>The controller\<close>

text \<open>
  The members of \<open>ObstacleController\<close> that the functions below read or write.
  \<open>offline\<close> is \<open>_masterController->offline()\<close>, \<open>flyView\<close> is \<open>_flyView\<close>,
  \<open>breachReturnAltitudeFact\<close> is the raw value of the fact, and \<open>emitted\<close> is
  the sequence of signals of the controller emitted so far.
\<close>

datatype signal =
    BreachReturnPointChanged QGeoCoordinate
  | DirtyChanged bool
  | ContainsItemsChanged bool
  | LoadComplete

record ObstacleController =
  offline :: bool
  flyView :: bool
  managerVehicle :: Vehicle
  obstacleManager :: ObstacleManager
  polygons :: "QGCFencePolygon list"
  circles :: "QGCFenceCircle list"
  breachReturnPoint :: QGeoCoordinate
  breachReturnAltitudeFact :: double
  breachReturnDefaultAltitude :: double
  dirty :: bool
  itemsRequested :: bool
  emitted :: "signal list"

definition emit :: "signal \<Rightarrow> ObstacleController \<Rightarrow> ObstacleController" where
  "emit sg s = s\<lparr>emitted := emitted s @ [sg]\<rparr>"

definition containsItems :: "ObstacleController \<Rightarrow> bool" where
  "containsItems s = (length (polygons s) > 0 \<or> length (circles s) > 0)"

definition isEmpty :: "ObstacleController \<Rightarrow> bool" where
  "isEmpty s =
     (length (polygons s) = 0 \<and> length (circles s) = 0 \<and> \<not> isValid (breachReturnPoint s))"

definition syncInProgress :: "ObstacleController \<Rightarrow> bool" where
  "syncInProgress s = inProgress (obstacleManager s)"

subsection \<open>The dirty flag\<close>

text \<open>
  \<open>setDirty(true)\<close>: the instance \<open>dirty = true\<close> of \<open>setDirty\<close> below.  It is
  defined first because the slot \<open>_setDirty\<close>, which the constructor connects to
  four signals, calls it, and \<open>setDirty(false)\<close> reaches that slot again through
  the shapes it clears.
\<close>

definition setDirty_true :: "ObstacleController \<Rightarrow> ObstacleController" where
  "setDirty_true s = (if True \<noteq> dirty s then emit (DirtyChanged True) (s\<lparr>dirty := True\<rparr>) else s)"

text \<open>The slot \<open>_setDirty\<close>.\<close>

definition slot_setDirty :: "ObstacleController \<Rightarrow> ObstacleController" where
  "slot_setDirty s = setDirty_true s"

text \<open>
  Modelled from the spec: \<open>QGCFencePolygon::setDirty\<close>, \<open>QGCFenceCircle::setDirty\<close>
  and the \<open>dirtyChanged\<close> signal of the list that holds the shapes are outside the
  file.  Section 4.1: "any per-shape dirty change propagates to an aggregate set
  dirty notification".  The constructor connects that notification of
  \<open>_polygons\<close> and of \<open>_circles\<close> to \<open>_setDirty\<close>.
\<close>

definition polygon_setDirty :: "nat \<Rightarrow> bool \<Rightarrow> ObstacleController \<Rightarrow> ObstacleController" where
  "polygon_setDirty i d s =
     (if i < length (polygons s) \<and> poly_dirty (polygons s ! i) \<noteq> d
      then slot_setDirty (s\<lparr>polygons := (polygons s)[i := (polygons s ! i)\<lparr>poly_dirty := d\<rparr>]\<rparr>)
      else s)"

definition circle_setDirty :: "nat \<Rightarrow> bool \<Rightarrow> ObstacleController \<Rightarrow> ObstacleController" where
  "circle_setDirty i d s =
     (if i < length (circles s) \<and> circ_dirty (circles s ! i) \<noteq> d
      then slot_setDirty (s\<lparr>circles := (circles s)[i := (circles s ! i)\<lparr>circ_dirty := d\<rparr>]\<rparr>)
      else s)"

text \<open>\<open>ObstacleController::setDirty\<close>, with its two loops over the shapes.\<close>

definition setDirty :: "bool \<Rightarrow> ObstacleController \<Rightarrow> ObstacleController" where
  "setDirty d s =
     (if d \<noteq> dirty s then
        (let s1 = s\<lparr>dirty := d\<rparr>;
             s2 = (if \<not> d then
                     (let s_p = fold (\<lambda>i. polygon_setDirty i False) [0..<length (polygons s1)] s1
                      in fold (\<lambda>i. circle_setDirty i False) [0..<length (circles s_p)] s_p)
                   else s1)
         in emit (DirtyChanged d) s2)
      else s)"

subsection \<open>The lists of shapes\<close>

text \<open>The slot \<open>_updateContainsItems\<close>, connected to \<open>countChanged\<close> of both lists.\<close>

definition updateContainsItems :: "ObstacleController \<Rightarrow> ObstacleController" where
  "updateContainsItems s = emit (ContainsItemsChanged (containsItems s)) s"

text \<open>
  Modelled from the spec: \<open>QmlObjectListModel\<close> is outside the file.  Section 4.1:
  "any mutation that changes membership emits a count changed notification";
  section 4.2: "any shape-count change ... sets document dirty := true".  So a
  change of membership runs \<open>_updateContainsItems\<close> and \<open>_setDirty\<close>;
  clearing an empty list changes nothing.
\<close>

definition polygons_append :: "QGCFencePolygon \<Rightarrow> ObstacleController \<Rightarrow> ObstacleController" where
  "polygons_append p s = slot_setDirty (updateContainsItems (s\<lparr>polygons := polygons s @ [p]\<rparr>))"

definition circles_append :: "QGCFenceCircle \<Rightarrow> ObstacleController \<Rightarrow> ObstacleController" where
  "circles_append c s = slot_setDirty (updateContainsItems (s\<lparr>circles := circles s @ [c]\<rparr>))"

definition polygons_clearAndDeleteContents :: "ObstacleController \<Rightarrow> ObstacleController" where
  "polygons_clearAndDeleteContents s =
     (if polygons s = [] then s
      else slot_setDirty (updateContainsItems (s\<lparr>polygons := []\<rparr>)))"

definition circles_clearAndDeleteContents :: "ObstacleController \<Rightarrow> ObstacleController" where
  "circles_clearAndDeleteContents s =
     (if circles s = [] then s
      else slot_setDirty (updateContainsItems (s\<lparr>circles := []\<rparr>)))"

subsection \<open>The breach return point\<close>

text \<open>
  \<open>emit breachReturnPointChanged(p)\<close>: the signal, then the slot \<open>_setDirty\<close> that
  the constructor connects to it.
\<close>

definition emit_breachReturnPointChanged ::
    "QGeoCoordinate \<Rightarrow> ObstacleController \<Rightarrow> ObstacleController" where
  "emit_breachReturnPointChanged p s = slot_setDirty (emit (BreachReturnPointChanged p) s)"

definition setBreachReturnPoint :: "QGeoCoordinate \<Rightarrow> ObstacleController \<Rightarrow> ObstacleController" where
  "setBreachReturnPoint p s =
     (if breachReturnPoint s \<noteq> p
      then emit_breachReturnPointChanged p (setDirty True (s\<lparr>breachReturnPoint := p\<rparr>))
      else s)"

text \<open>
  Modelled from the spec: \<open>Fact::setRawValue\<close> is outside the file.  Section 4.2:
  "any ... breach-point/altitude change sets document dirty := true"; the
  constructor connects \<open>rawValueChanged\<close> of the fact to \<open>_setDirty\<close>.
\<close>

definition fact_setRawValue :: "double \<Rightarrow> ObstacleController \<Rightarrow> ObstacleController" where
  "fact_setRawValue a s =
     (if breachReturnAltitudeFact s \<noteq> a
      then slot_setDirty (s\<lparr>breachReturnAltitudeFact := a\<rparr>)
      else s)"

definition removeAll :: "ObstacleController \<Rightarrow> ObstacleController" where
  "removeAll s =
     circles_clearAndDeleteContents
       (polygons_clearAndDeleteContents (setBreachReturnPoint QGeoCoordinate_default s))"

section \<open>Load and save\<close>

text \<open>
  The keys.  \<open>_jsonBreachReturnKey\<close>, \<open>_jsonPolygonsKey\<close> and \<open>_jsonCirclesKey\<close>
  are set in ObstacleController.cc.  Modelled from the spec:
  \<open>JsonHelper::jsonVersionKey\<close> and \<open>_jsonCurrentVersion\<close> are declared outside
  the file; section 6 names the field \<open>version\<close> and the current version 2.
\<close>

definition jsonVersionKey :: string where
  "jsonVersionKey = ''version''"

definition jsonCurrentVersion :: int where
  "jsonCurrentVersion = 2"

definition jsonBreachReturnKey :: string where
  "jsonBreachReturnKey = ''breachReturn''"

definition jsonPolygonsKey :: string where
  "jsonPolygonsKey = ''polygons''"

definition jsonCirclesKey :: string where
  "jsonCirclesKey = ''circles''"

text \<open>
  The outcome of \<open>load\<close>: \<open>None\<close> is the return value \<open>true\<close> with an empty
  \<open>errorString\<close>, \<open>Some e\<close> is the return value \<open>false\<close> with the message.
  \<open>UnsupportedVersion\<close> is "Obstacle supports version 2", \<open>PolygonNotObject\<close> is
  "Obstacle polygon not stored as object", \<open>CircleNotObject\<close> is "Obstacle circle
  not stored as object"; the others carry what the helper reported.
\<close>

datatype key_error = MissingKey string | WrongType string

datatype load_error =
    KeyValidation key_error
  | UnsupportedVersion
  | PolygonNotObject
  | PolygonError string
  | CircleNotObject
  | CircleError string
  | CoordinateError

text \<open>
  Modelled from the spec: \<open>JsonHelper::validateKeys\<close> is outside the file.
  Section 7: a "missing/wrong-typed required field" is an error; section 4.2: the
  breach return field is optional, an array when present.  Each entry is a key,
  the type its value must have, and whether the key is required.
\<close>

fun validateKeys :: "QJsonObject \<Rightarrow> (string \<times> json_type \<times> bool) list \<Rightarrow> key_error option" where
  "validateKeys json [] = None"
| "validateKeys json ((k, t, required) # infos) =
     (case obj_value json k of
        None \<Rightarrow> (if required then Some (MissingKey k) else validateKeys json infos)
      | Some v \<Rightarrow> (if type_of_json v = t then validateKeys json infos else Some (WrongType k)))"

definition keyInfoList :: "(string \<times> json_type \<times> bool) list" where
  "keyInfoList =
     [(jsonVersionKey, T_Double, True),
      (jsonCirclesKey, T_Array, True),
      (jsonPolygonsKey, T_Array, True),
      (jsonBreachReturnKey, T_Array, False)]"

text \<open>
  Modelled from the spec: \<open>JsonHelper::loadGeoCoordinate\<close> and
  \<open>JsonHelper::saveGeoCoordinate\<close> are outside the file.  Section 6: the breach
  return point is the array \<open>[lon, lat, alt]\<close>; section 4.2: the altitude is
  required when the point is present.  A failed load leaves the coordinate it was
  given untouched.
\<close>

definition loadGeoCoordinate :: "json option \<Rightarrow> bool \<Rightarrow> QGeoCoordinate option" where
  "loadGeoCoordinate v altitudeRequired =
     (case v of
        Some (JArray [JDouble lo, JDouble la, JDouble al]) \<Rightarrow>
          (if altitudeRequired
           then Some \<lparr>latitude = la, longitude = lo, altitude = al\<rparr>
           else None)
      | Some (JArray [JDouble lo, JDouble la]) \<Rightarrow>
          (if altitudeRequired
           then None
           else Some \<lparr>latitude = la, longitude = lo, altitude = NaN\<rparr>)
      | _ \<Rightarrow> None)"

definition saveGeoCoordinate :: "QGeoCoordinate \<Rightarrow> bool \<Rightarrow> json" where
  "saveGeoCoordinate c writeAltitude =
     (if writeAltitude
      then JArray [JDouble (longitude c), JDouble (latitude c), JDouble (altitude c)]
      else JArray [JDouble (longitude c), JDouble (latitude c)])"

text \<open>The two loops of \<open>load\<close>: each entry is checked, parsed and appended in turn.\<close>

fun load_polygons ::
    "shape_ops \<Rightarrow> json list \<Rightarrow> ObstacleController \<Rightarrow> load_error option \<times> ObstacleController" where
  "load_polygons ops [] s = (None, s)"
| "load_polygons ops (v # vs) s =
     (case v of
        JObject obj \<Rightarrow>
          (case polygon_loadFromJson ops obj of
             Inl msg \<Rightarrow> (Some (PolygonError msg), s)
           | Inr p \<Rightarrow> load_polygons ops vs (polygons_append p s))
      | _ \<Rightarrow> (Some PolygonNotObject, s))"

fun load_circles ::
    "shape_ops \<Rightarrow> json list \<Rightarrow> ObstacleController \<Rightarrow> load_error option \<times> ObstacleController" where
  "load_circles ops [] s = (None, s)"
| "load_circles ops (v # vs) s =
     (case v of
        JObject obj \<Rightarrow>
          (case circle_loadFromJson ops obj of
             Inl msg \<Rightarrow> (Some (CircleError msg), s)
           | Inr c \<Rightarrow> load_circles ops vs (circles_append c s))
      | _ \<Rightarrow> (Some CircleNotObject, s))"

text \<open>\<open>ObstacleController::load\<close>.\<close>

definition load ::
    "shape_ops \<Rightarrow> QJsonObject \<Rightarrow> ObstacleController \<Rightarrow> load_error option \<times> ObstacleController" where
  "load ops json s0 =
     (let s = removeAll s0 in
      if \<not> obj_contains json jsonVersionKey \<or>
         (obj_contains json jsonVersionKey \<and> toInt (obj_value json jsonVersionKey) = 1)
      then (None, s)
      else
        (case validateKeys json keyInfoList of
           Some e \<Rightarrow> (Some (KeyValidation e), s)
         | None \<Rightarrow>
             if toInt (obj_value json jsonVersionKey) \<noteq> jsonCurrentVersion
             then (Some UnsupportedVersion, s)
             else
               (case load_polygons ops (toArray (obj_value json jsonPolygonsKey)) s of
                  (Some e, s1) \<Rightarrow> (Some e, s1)
                | (None, s1) \<Rightarrow>
                    (case load_circles ops (toArray (obj_value json jsonCirclesKey)) s1 of
                       (Some e, s2) \<Rightarrow> (Some e, s2)
                     | (None, s2) \<Rightarrow>
                         (if obj_contains json jsonBreachReturnKey then
                            (case loadGeoCoordinate (obj_value json jsonBreachReturnKey) True of
                               None \<Rightarrow> (Some CoordinateError, s2)
                             | Some c \<Rightarrow>
                                 (let s3 = fact_setRawValue (altitude c) (s2\<lparr>breachReturnPoint := c\<rparr>);
                                      s4 = emit_breachReturnPointChanged (breachReturnPoint s3) s3
                                  in (None, setDirty False s4)))
                          else
                            (let s3 = fact_setRawValue (breachReturnDefaultAltitude s2)
                                        (s2\<lparr>breachReturnPoint := QGeoCoordinate_default\<rparr>);
                                 s4 = emit_breachReturnPointChanged (breachReturnPoint s3) s3
                             in (None, setDirty False s4)))))))"

text \<open>
  \<open>ObstacleController::save\<close>: the object it was given with the keys it sets, and
  the controller, whose breach return point it may write.
\<close>

definition save ::
    "shape_ops \<Rightarrow> ObstacleController \<Rightarrow> QJsonObject \<Rightarrow> QJsonObject \<times> ObstacleController" where
  "save ops s json0 =
     (let json1 = obj_insert jsonVersionKey (JDouble (Fin (of_int jsonCurrentVersion))) json0;
          json2 = obj_insert jsonPolygonsKey
                    (JArray (map (\<lambda>p. JObject (polygon_saveToJson ops p)) (polygons s))) json1;
          json3 = obj_insert jsonCirclesKey
                    (JArray (map (\<lambda>c. JObject (circle_saveToJson ops c)) (circles s))) json2
      in if isValid (breachReturnPoint s) then
           (let s' = s\<lparr>breachReturnPoint :=
                          setAltitude (breachReturnAltitudeFact s) (breachReturnPoint s)\<rparr>
            in (obj_insert jsonBreachReturnKey (saveGeoCoordinate (breachReturnPoint s') True) json3, s'))
         else (json3, s))"

section \<open>Synchronisation with the vehicle\<close>

definition removeAllFromVehicle :: "ObstacleController \<Rightarrow> ObstacleController" where
  "removeAllFromVehicle s =
     (if offline s then s
      else if syncInProgress s then s
      else s\<lparr>obstacleManager := manager_call Manager_removeAll (obstacleManager s)\<rparr>)"

definition loadFromVehicle :: "ObstacleController \<Rightarrow> ObstacleController" where
  "loadFromVehicle s =
     (if offline s then s
      else if syncInProgress s then s
      else (let s1 = s\<lparr>itemsRequested := True\<rparr>
            in s1\<lparr>obstacleManager := manager_call Manager_loadFromVehicle (obstacleManager s1)\<rparr>))"

definition sendToVehicle :: "ObstacleController \<Rightarrow> ObstacleController" where
  "sendToVehicle s =
     (if offline s then s
      else if syncInProgress s then s
      else setDirty False
             (s\<lparr>obstacleManager :=
                  manager_call (Manager_sendToVehicle (breachReturnPoint s) (polygons s) (circles s))
                    (obstacleManager s)\<rparr>))"

text \<open>
  The three requests a caller can make, and a sequence of them, to state what
  the guard does to any number of attempts.
\<close>

datatype sync_request = LoadFromVehicle | SendToVehicle | RemoveAllFromVehicle

fun request :: "sync_request \<Rightarrow> ObstacleController \<Rightarrow> ObstacleController" where
  "request LoadFromVehicle s = loadFromVehicle s"
| "request SendToVehicle s = sendToVehicle s"
| "request RemoveAllFromVehicle s = removeAllFromVehicle s"

text \<open>\<open>_setFenceFromManager\<close>, \<open>_setReturnPointFromManager\<close>, \<open>_managerLoadComplete\<close>.\<close>

definition setFenceFromManager ::
    "shape_ops \<Rightarrow> QGCFencePolygon list \<Rightarrow> QGCFenceCircle list \<Rightarrow>
     ObstacleController \<Rightarrow> ObstacleController" where
  "setFenceFromManager ops ps cs s =
     (let s1 = polygons_clearAndDeleteContents s;
          s2 = circles_clearAndDeleteContents s1;
          s3 = fold (\<lambda>p. polygons_append (polygon_copy ops p)) ps s2;
          s4 = fold (\<lambda>c. circles_append (circle_copy ops c)) cs s3
      in setDirty False s4)"

definition setReturnPointFromManager :: "QGeoCoordinate \<Rightarrow> ObstacleController \<Rightarrow> ObstacleController" where
  "setReturnPointFromManager p s =
     (let s1 = s\<lparr>breachReturnPoint := p\<rparr>;
          s2 = emit_breachReturnPointChanged (breachReturnPoint s1) s1
      in if isValid (breachReturnPoint s2)
         then fact_setRawValue (altitude (breachReturnPoint s2)) s2
         else fact_setRawValue (breachReturnDefaultAltitude s2) s2)"

definition managerLoadComplete :: "shape_ops \<Rightarrow> ObstacleController \<Rightarrow> ObstacleController" where
  "managerLoadComplete ops s =
     (let s' =
        (if flyView s \<or> itemsRequested s \<or> isEmpty s then
           (let s1 = setReturnPointFromManager (manager_breachReturnPoint (obstacleManager s)) s;
                s2 = setFenceFromManager ops (manager_polygons (obstacleManager s1))
                       (manager_circles (obstacleManager s1)) s1;
                s3 = setDirty False s2
            in emit LoadComplete s3)
         else s)
      in s'\<lparr>itemsRequested := False\<rparr>)"

text \<open>\<open>showPlanFromManagerVehicle\<close>: the value it returns and the controller it leaves.\<close>

definition showPlanFromManagerVehicle ::
    "shape_ops \<Rightarrow> ObstacleController \<Rightarrow> bool \<times> ObstacleController" where
  "showPlanFromManagerVehicle ops s =
     (if offline s then (True, s)
      else
        (let s1 = s\<lparr>itemsRequested := True\<rparr> in
         if \<not> initialPlanRequestComplete (managerVehicle s1) then (True, s1)
         else if syncInProgress s1 then (True, s1)
         else (False, managerLoadComplete ops (s1\<lparr>itemsRequested := True\<rparr>))))"

section \<open>Notions used to state the properties\<close>

text \<open>
  The collaborators' state that the operations on the document leave alone.
\<close>

definition env_of ::
    "ObstacleController \<Rightarrow> bool \<times> bool \<times> Vehicle \<times> ObstacleManager \<times> double \<times> bool" where
  "env_of s = (offline s, flyView s, managerVehicle s, obstacleManager s,
               breachReturnDefaultAltitude s, itemsRequested s)"

definition clean_polygon :: "QGCFencePolygon \<Rightarrow> QGCFencePolygon" where
  "clean_polygon p = p\<lparr>poly_dirty := False\<rparr>"

definition clean_circle :: "QGCFenceCircle \<Rightarrow> QGCFenceCircle" where
  "clean_circle c = c\<lparr>circ_dirty := False\<rparr>"

text \<open>No shape of the document is dirty.\<close>

definition shapes_clean :: "ObstacleController \<Rightarrow> bool" where
  "shapes_clean s =
     (list_all (\<lambda>p. \<not> poly_dirty p) (polygons s) \<and> list_all (\<lambda>c. \<not> circ_dirty c) (circles s))"

text \<open>
  What the notifications, as they are modelled, maintain between calls: a
  document that is not dirty holds no dirty shape.
\<close>

definition dirty_covers_shapes :: "ObstacleController \<Rightarrow> bool" where
  "dirty_covers_shapes s = (dirty s \<or> shapes_clean s)"

text \<open>Equivalent shapes: the same vertices, or centre and radius, and the same inclusion flag.\<close>

definition same_polygon :: "QGCFencePolygon \<Rightarrow> QGCFencePolygon \<Rightarrow> bool" where
  "same_polygon p q = (poly_path p = poly_path q \<and> poly_inclusion p = poly_inclusion q)"

definition same_circle :: "QGCFenceCircle \<Rightarrow> QGCFenceCircle \<Rightarrow> bool" where
  "same_circle c d =
     (circ_center c = circ_center d \<and> circ_radius c = circ_radius d \<and>
      circ_inclusion c = circ_inclusion d)"

text \<open>
  What a shape serializer has to do for a shape to survive \<open>save\<close> and \<open>load\<close>:
  the object it writes loads again, as an equivalent shape that is not dirty.
\<close>

definition polygon_roundtrips :: "shape_ops \<Rightarrow> QGCFencePolygon \<Rightarrow> bool" where
  "polygon_roundtrips ops p =
     (case polygon_loadFromJson ops (polygon_saveToJson ops p) of
        Inl msg \<Rightarrow> False
      | Inr q \<Rightarrow> same_polygon p q \<and> \<not> poly_dirty q)"

definition circle_roundtrips :: "shape_ops \<Rightarrow> QGCFenceCircle \<Rightarrow> bool" where
  "circle_roundtrips ops c =
     (case circle_loadFromJson ops (circle_saveToJson ops c) of
        Inl msg \<Rightarrow> False
      | Inr d \<Rightarrow> same_circle c d \<and> \<not> circ_dirty d)"

text \<open>
  The shapes that the loops of \<open>load\<close> have appended when they stop: those of the
  entries before the first one that is not an object or does not parse.
\<close>

fun parsed_polygons :: "shape_ops \<Rightarrow> json list \<Rightarrow> QGCFencePolygon list" where
  "parsed_polygons ops [] = []"
| "parsed_polygons ops (v # vs) =
     (case v of
        JObject obj \<Rightarrow>
          (case polygon_loadFromJson ops obj of
             Inl msg \<Rightarrow> []
           | Inr p \<Rightarrow> p # parsed_polygons ops vs)
      | _ \<Rightarrow> [])"

fun parsed_circles :: "shape_ops \<Rightarrow> json list \<Rightarrow> QGCFenceCircle list" where
  "parsed_circles ops [] = []"
| "parsed_circles ops (v # vs) =
     (case v of
        JObject obj \<Rightarrow>
          (case circle_loadFromJson ops obj of
             Inl msg \<Rightarrow> []
           | Inr c \<Rightarrow> c # parsed_circles ops vs)
      | _ \<Rightarrow> [])"

text \<open>
  The part of \<open>load\<close> after the two loops, named to reason about it; \<open>load\<close>
  is shown equal to its unfolding through it.
\<close>

definition load_breachReturn ::
    "QJsonObject \<Rightarrow> ObstacleController \<Rightarrow> load_error option \<times> ObstacleController" where
  "load_breachReturn json s2 =
     (if obj_contains json jsonBreachReturnKey then
        (case loadGeoCoordinate (obj_value json jsonBreachReturnKey) True of
           None \<Rightarrow> (Some CoordinateError, s2)
         | Some c \<Rightarrow>
             (None, setDirty False
                (emit_breachReturnPointChanged c
                   (fact_setRawValue (altitude c) (s2\<lparr>breachReturnPoint := c\<rparr>)))))
      else
        (None, setDirty False
           (emit_breachReturnPointChanged QGeoCoordinate_default
              (fact_setRawValue (breachReturnDefaultAltitude s2)
                 (s2\<lparr>breachReturnPoint := QGeoCoordinate_default\<rparr>)))))"

text \<open>The reconciliation itself: the branch of the load-complete callback behind the guard.\<close>

definition reconcile :: "shape_ops \<Rightarrow> ObstacleController \<Rightarrow> ObstacleController" where
  "reconcile ops s =
     emit LoadComplete
       (setDirty False
          (setFenceFromManager ops (manager_polygons (obstacleManager s))
             (manager_circles (obstacleManager s))
             (setReturnPointFromManager (manager_breachReturnPoint (obstacleManager s)) s)))"

section \<open>An instance of the parameters\<close>

text \<open>
  Serializers and copy constructors to run the model on concrete documents: a
  polygon is written as its inclusion flag and the array of its vertices, a
  circle as its inclusion flag, centre and radius; a copy is a new shape that
  is dirty and not selected.
\<close>

definition example_polygon_saveToJson :: "QGCFencePolygon \<Rightarrow> QJsonObject" where
  "example_polygon_saveToJson p =
     [(''inclusion'', JBool (poly_inclusion p)),
      (''polygon'', JArray (map (\<lambda>c. saveGeoCoordinate c False) (poly_path p)))]"

definition example_polygon_loadFromJson :: "QJsonObject \<Rightarrow> string + QGCFencePolygon" where
  "example_polygon_loadFromJson obj =
     (case obj_value obj ''inclusion'' of
        Some (JBool b) \<Rightarrow>
          (case obj_value obj ''polygon'' of
             Some (JArray vs) \<Rightarrow>
               (case those (map (\<lambda>v. loadGeoCoordinate (Some v) False) vs) of
                  None \<Rightarrow> Inl ''vertex''
                | Some path \<Rightarrow>
                    Inr \<lparr>poly_path = path, poly_inclusion = b,
                         poly_interactive = False, poly_dirty = False\<rparr>)
           | _ \<Rightarrow> Inl ''polygon'')
      | _ \<Rightarrow> Inl ''inclusion'')"

definition example_circle_saveToJson :: "QGCFenceCircle \<Rightarrow> QJsonObject" where
  "example_circle_saveToJson c =
     [(''inclusion'', JBool (circ_inclusion c)),
      (''center'', saveGeoCoordinate (circ_center c) False),
      (''radius'', JDouble (circ_radius c))]"

definition example_circle_loadFromJson :: "QJsonObject \<Rightarrow> string + QGCFenceCircle" where
  "example_circle_loadFromJson obj =
     (case obj_value obj ''inclusion'' of
        Some (JBool b) \<Rightarrow>
          (case loadGeoCoordinate (obj_value obj ''center'') False of
             None \<Rightarrow> Inl ''center''
           | Some ctr \<Rightarrow>
               (case obj_value obj ''radius'' of
                  Some (JDouble r) \<Rightarrow>
                    Inr \<lparr>circ_center = ctr, circ_radius = r, circ_inclusion = b,
                         circ_interactive = False, circ_dirty = False\<rparr>
                | _ \<Rightarrow> Inl ''radius''))
      | _ \<Rightarrow> Inl ''inclusion'')"

definition example_ops :: shape_ops where
  "example_ops =
     \<lparr>polygon_loadFromJson = example_polygon_loadFromJson,
      polygon_saveToJson = example_polygon_saveToJson,
      polygon_copy = (\<lambda>p. p\<lparr>poly_interactive := False, poly_dirty := True\<rparr>),
      circle_loadFromJson = example_circle_loadFromJson,
      circle_saveToJson = example_circle_saveToJson,
      circle_copy = (\<lambda>c. c\<lparr>circ_interactive := False, circ_dirty := True\<rparr>)\<rparr>"

text \<open>A triangle to keep out of, a circle to stay in, and a vehicle that reports both.\<close>

definition example_polygon :: QGCFencePolygon where
  "example_polygon =
     \<lparr>poly_path =
        [\<lparr>latitude = Fin 47, longitude = Fin 8, altitude = NaN\<rparr>,
         \<lparr>latitude = Fin 47, longitude = Fin 9, altitude = NaN\<rparr>,
         \<lparr>latitude = Fin 48, longitude = Fin 8, altitude = NaN\<rparr>],
      poly_inclusion = False, poly_interactive = True, poly_dirty = True\<rparr>"

definition example_circle :: QGCFenceCircle where
  "example_circle =
     \<lparr>circ_center = \<lparr>latitude = Fin 47, longitude = Fin 8, altitude = NaN\<rparr>,
      circ_radius = Fin 100, circ_inclusion = True,
      circ_interactive = False, circ_dirty = False\<rparr>"

definition example_manager :: ObstacleManager where
  "example_manager =
     \<lparr>inProgress = False,
      manager_breachReturnPoint = \<lparr>latitude = Fin 46, longitude = Fin 7, altitude = Fin 30\<rparr>,
      manager_polygons = [example_polygon],
      manager_circles = [example_circle],
      calls = []\<rparr>"

definition example_vehicle :: Vehicle where
  "example_vehicle =
     \<lparr>capabilityBits = 32, maxProtoVersion = 200, initialPlanRequestComplete = True\<rparr>"

text \<open>
  A document being edited in the plan view: one polygon, one circle, a breach
  return point whose own altitude (10) is not the value of the altitude fact (50).
\<close>

definition example_controller :: ObstacleController where
  "example_controller =
     \<lparr>offline = False, flyView = False,
      managerVehicle = example_vehicle,
      obstacleManager = example_manager,
      polygons = [example_polygon],
      circles = [example_circle],
      breachReturnPoint = \<lparr>latitude = Fin 47, longitude = Fin 8, altitude = Fin 10\<rparr>,
      breachReturnAltitudeFact = Fin 50,
      breachReturnDefaultAltitude = Fin 50,
      dirty = True, itemsRequested = False, emitted = []\<rparr>"

text \<open>
  A version 2 object whose second polygon entry is not an object.
\<close>

definition example_malformed :: QJsonObject where
  "example_malformed =
     [(''version'', JDouble (Fin 2)),
      (''polygons'', JArray [JObject (example_polygon_saveToJson example_polygon), JNull]),
      (''circles'', JArray [])]"

section \<open>What each operation does to the document\<close>

lemma env_of_update [simp]:
  "env_of (s\<lparr>polygons := ps\<rparr>) = env_of s"
  "env_of (s\<lparr>circles := cs\<rparr>) = env_of s"
  "env_of (s\<lparr>breachReturnPoint := p\<rparr>) = env_of s"
  "env_of (s\<lparr>breachReturnAltitudeFact := a\<rparr>) = env_of s"
  "env_of (s\<lparr>dirty := d\<rparr>) = env_of s"
  "env_of (s\<lparr>emitted := es\<rparr>) = env_of s"
  by (simp_all add: env_of_def)

lemma env_proj:
  "offline s = fst (env_of s)"
  "flyView s = fst (snd (env_of s))"
  "managerVehicle s = fst (snd (snd (env_of s)))"
  "obstacleManager s = fst (snd (snd (snd (env_of s))))"
  "breachReturnDefaultAltitude s = fst (snd (snd (snd (snd (env_of s)))))"
  "itemsRequested s = snd (snd (snd (snd (snd (env_of s)))))"
  by (simp_all add: env_of_def)

lemma emit_fields [simp]:
  "env_of (emit sg s) = env_of s"
  "polygons (emit sg s) = polygons s"
  "circles (emit sg s) = circles s"
  "breachReturnPoint (emit sg s) = breachReturnPoint s"
  "breachReturnAltitudeFact (emit sg s) = breachReturnAltitudeFact s"
  "dirty (emit sg s) = dirty s"
  "emitted (emit sg s) = emitted s @ [sg]"
  "prefix es (emitted s) \<Longrightarrow> prefix es (emitted (emit sg s))"
  by (simp_all add: emit_def)

lemma slot_setDirty_fields [simp]:
  "env_of (slot_setDirty s) = env_of s"
  "polygons (slot_setDirty s) = polygons s"
  "circles (slot_setDirty s) = circles s"
  "breachReturnPoint (slot_setDirty s) = breachReturnPoint s"
  "breachReturnAltitudeFact (slot_setDirty s) = breachReturnAltitudeFact s"
  "dirty (slot_setDirty s) = True"
  "prefix es (emitted s) \<Longrightarrow> prefix es (emitted (slot_setDirty s))"
  by (simp_all add: slot_setDirty_def setDirty_true_def)

lemma poly_dirty_same [simp]: "poly_dirty p = d \<Longrightarrow> p\<lparr>poly_dirty := d\<rparr> = p"
  by (cases p) simp

lemma circ_dirty_same [simp]: "circ_dirty c = d \<Longrightarrow> c\<lparr>circ_dirty := d\<rparr> = c"
  by (cases c) simp

lemma polygon_setDirty_fields [simp]:
  "env_of (polygon_setDirty i d s) = env_of s"
  "polygons (polygon_setDirty i d s) = (polygons s)[i := (polygons s ! i)\<lparr>poly_dirty := d\<rparr>]"
  "circles (polygon_setDirty i d s) = circles s"
  "breachReturnPoint (polygon_setDirty i d s) = breachReturnPoint s"
  "breachReturnAltitudeFact (polygon_setDirty i d s) = breachReturnAltitudeFact s"
  "dirty (polygon_setDirty i d s) =
     (dirty s \<or> (i < length (polygons s) \<and> poly_dirty (polygons s ! i) \<noteq> d))"
  "prefix es (emitted s) \<Longrightarrow> prefix es (emitted (polygon_setDirty i d s))"
  by (auto simp add: polygon_setDirty_def list_update_beyond)

lemma circle_setDirty_fields [simp]:
  "env_of (circle_setDirty i d s) = env_of s"
  "polygons (circle_setDirty i d s) = polygons s"
  "circles (circle_setDirty i d s) = (circles s)[i := (circles s ! i)\<lparr>circ_dirty := d\<rparr>]"
  "breachReturnPoint (circle_setDirty i d s) = breachReturnPoint s"
  "breachReturnAltitudeFact (circle_setDirty i d s) = breachReturnAltitudeFact s"
  "dirty (circle_setDirty i d s) =
     (dirty s \<or> (i < length (circles s) \<and> circ_dirty (circles s ! i) \<noteq> d))"
  "prefix es (emitted s) \<Longrightarrow> prefix es (emitted (circle_setDirty i d s))"
  by (auto simp add: circle_setDirty_def list_update_beyond)

lemma clean_polygon_simps [simp]:
  "\<not> poly_dirty (clean_polygon p)"
  "clean_polygon (clean_polygon p) = clean_polygon p"
  "poly_path (clean_polygon p) = poly_path p"
  "poly_inclusion (clean_polygon p) = poly_inclusion p"
  by (simp_all add: clean_polygon_def)

lemma clean_circle_simps [simp]:
  "\<not> circ_dirty (clean_circle c)"
  "clean_circle (clean_circle c) = clean_circle c"
  "circ_center (clean_circle c) = circ_center c"
  "circ_radius (clean_circle c) = circ_radius c"
  "circ_inclusion (clean_circle c) = circ_inclusion c"
  by (simp_all add: clean_circle_def)

lemma clean_step:
  assumes "n < length xs"
  shows "(map f (take n xs) @ drop n xs)[n := f ((map f (take n xs) @ drop n xs) ! n)]
         = map f (take (Suc n) xs) @ drop (Suc n) xs"
  using assms
  by (simp add: list_update_append nth_append take_Suc_conv_app_nth
       flip: Cons_nth_drop_Suc)

lemma polygon_loop:
  "n \<le> length (polygons s) \<Longrightarrow>
   polygons (fold (\<lambda>i. polygon_setDirty i False) [0..<n] s)
     = map clean_polygon (take n (polygons s)) @ drop n (polygons s)
   \<and> circles (fold (\<lambda>i. polygon_setDirty i False) [0..<n] s) = circles s
   \<and> env_of (fold (\<lambda>i. polygon_setDirty i False) [0..<n] s) = env_of s
   \<and> breachReturnPoint (fold (\<lambda>i. polygon_setDirty i False) [0..<n] s) = breachReturnPoint s
   \<and> breachReturnAltitudeFact (fold (\<lambda>i. polygon_setDirty i False) [0..<n] s) = breachReturnAltitudeFact s
   \<and> dirty (fold (\<lambda>i. polygon_setDirty i False) [0..<n] s)
       = (dirty s \<or> (\<exists>p \<in> set (take n (polygons s)). poly_dirty p))
   \<and> (prefix es (emitted s) \<longrightarrow>
        prefix es (emitted (fold (\<lambda>i. polygon_setDirty i False) [0..<n] s)))"
proof (induction n)
  case 0
  then show ?case by simp
next
  case (Suc n)
  then have n: "n < length (polygons s)" and IH: "n \<le> length (polygons s)" by simp_all
  note ih = Suc.IH [OF IH]
  let ?t = "fold (\<lambda>i. polygon_setDirty i False) [0..<n] s"
  have st: "fold (\<lambda>i. polygon_setDirty i False) [0..<Suc n] s = polygon_setDirty n False ?t"
    by simp
  have nth: "(map clean_polygon (take n (polygons s)) @ drop n (polygons s)) ! n = polygons s ! n"
    using n by (simp add: nth_append)
  have p: "polygons (polygon_setDirty n False ?t)
           = map clean_polygon (take (Suc n) (polygons s)) @ drop (Suc n) (polygons s)"
    using clean_step [OF n, of clean_polygon] ih
    by (simp flip: clean_polygon_def)
  have d: "dirty (polygon_setDirty n False ?t)
           = (dirty s \<or> (\<exists>p \<in> set (take (Suc n) (polygons s)). poly_dirty p))"
    using ih n nth by (auto simp add: take_Suc_conv_app_nth)
  have e: "prefix es (emitted s) \<longrightarrow> prefix es (emitted (polygon_setDirty n False ?t))"
    using ih by simp
  show ?case
    unfolding st using p d e ih by simp
qed

lemma circle_loop:
  "n \<le> length (circles s) \<Longrightarrow>
   circles (fold (\<lambda>i. circle_setDirty i False) [0..<n] s)
     = map clean_circle (take n (circles s)) @ drop n (circles s)
   \<and> polygons (fold (\<lambda>i. circle_setDirty i False) [0..<n] s) = polygons s
   \<and> env_of (fold (\<lambda>i. circle_setDirty i False) [0..<n] s) = env_of s
   \<and> breachReturnPoint (fold (\<lambda>i. circle_setDirty i False) [0..<n] s) = breachReturnPoint s
   \<and> breachReturnAltitudeFact (fold (\<lambda>i. circle_setDirty i False) [0..<n] s) = breachReturnAltitudeFact s
   \<and> dirty (fold (\<lambda>i. circle_setDirty i False) [0..<n] s)
       = (dirty s \<or> (\<exists>c \<in> set (take n (circles s)). circ_dirty c))
   \<and> (prefix es (emitted s) \<longrightarrow>
        prefix es (emitted (fold (\<lambda>i. circle_setDirty i False) [0..<n] s)))"
proof (induction n)
  case 0
  then show ?case by simp
next
  case (Suc n)
  then have n: "n < length (circles s)" and IH: "n \<le> length (circles s)" by simp_all
  note ih = Suc.IH [OF IH]
  let ?t = "fold (\<lambda>i. circle_setDirty i False) [0..<n] s"
  have st: "fold (\<lambda>i. circle_setDirty i False) [0..<Suc n] s = circle_setDirty n False ?t"
    by simp
  have nth: "(map clean_circle (take n (circles s)) @ drop n (circles s)) ! n = circles s ! n"
    using n by (simp add: nth_append)
  have p: "circles (circle_setDirty n False ?t)
           = map clean_circle (take (Suc n) (circles s)) @ drop (Suc n) (circles s)"
    using clean_step [OF n, of clean_circle] ih
    by (simp flip: clean_circle_def)
  have d: "dirty (circle_setDirty n False ?t)
           = (dirty s \<or> (\<exists>c \<in> set (take (Suc n) (circles s)). circ_dirty c))"
    using ih n nth by (auto simp add: take_Suc_conv_app_nth)
  have e: "prefix es (emitted s) \<longrightarrow> prefix es (emitted (circle_setDirty n False ?t))"
    using ih by simp
  show ?case
    unfolding st using p d e ih by simp
qed

lemma setDirty_True: "setDirty True s = setDirty_true s"
  by (simp add: setDirty_def setDirty_true_def)

lemma setDirty_fields [simp]:
  "env_of (setDirty d s) = env_of s"
  "breachReturnPoint (setDirty d s) = breachReturnPoint s"
  "breachReturnAltitudeFact (setDirty d s) = breachReturnAltitudeFact s"
  "prefix es (emitted s) \<Longrightarrow> prefix es (emitted (setDirty d s))"
proof -
  let ?s1 = "s\<lparr>dirty := False\<rparr>"
  let ?sp = "fold (\<lambda>i. polygon_setDirty i False) [0..<length (polygons ?s1)] ?s1"
  note pl = polygon_loop [of "length (polygons ?s1)" ?s1 es]
  have cl: "length (circles ?sp) \<le> length (circles ?sp)" by simp
  note cl = circle_loop [OF cl, of es]
  show "env_of (setDirty d s) = env_of s"
    using pl cl by (simp add: setDirty_def Let_def)
  show "breachReturnPoint (setDirty d s) = breachReturnPoint s"
    using pl cl by (simp add: setDirty_def Let_def)
  show "breachReturnAltitudeFact (setDirty d s) = breachReturnAltitudeFact s"
    using pl cl by (simp add: setDirty_def Let_def)
  show "prefix es (emitted s) \<Longrightarrow> prefix es (emitted (setDirty d s))"
    using pl cl by (simp add: setDirty_def Let_def)
qed

lemma setDirty_True_fields [simp]:
  "polygons (setDirty True s) = polygons s"
  "circles (setDirty True s) = circles s"
  "dirty (setDirty True s) = True"
  by (simp_all add: setDirty_True setDirty_true_def)

lemma setDirty_False_fields:
  "polygons (setDirty False s) = (if dirty s then map clean_polygon (polygons s) else polygons s)"
  "circles (setDirty False s) = (if dirty s then map clean_circle (circles s) else circles s)"
  "dirty (setDirty False s) =
     (dirty s \<and> ((\<exists>p \<in> set (polygons s). poly_dirty p) \<or> (\<exists>c \<in> set (circles s). circ_dirty c)))"
proof -
  let ?s1 = "s\<lparr>dirty := False\<rparr>"
  let ?sp = "fold (\<lambda>i. polygon_setDirty i False) [0..<length (polygons ?s1)] ?s1"
  note pl = polygon_loop [of "length (polygons ?s1)" ?s1 "[]"]
  have cl: "length (circles ?sp) \<le> length (circles ?sp)" by simp
  note cl = circle_loop [OF cl, of "[]"]
  show "polygons (setDirty False s) = (if dirty s then map clean_polygon (polygons s) else polygons s)"
    using pl cl by (simp add: setDirty_def Let_def)
  show "circles (setDirty False s) = (if dirty s then map clean_circle (circles s) else circles s)"
    using pl cl by (simp add: setDirty_def Let_def)
  show "dirty (setDirty False s) =
     (dirty s \<and> ((\<exists>p \<in> set (polygons s). poly_dirty p) \<or> (\<exists>c \<in> set (circles s). circ_dirty c)))"
    using pl cl by (simp add: setDirty_def Let_def)
qed

lemma obstacleManager_setDirty [simp]: "obstacleManager (setDirty d s) = obstacleManager s"
  using setDirty_fields(1) [of d s] by (simp add: env_of_def)

lemma updateContainsItems_fields [simp]:
  "env_of (updateContainsItems s) = env_of s"
  "polygons (updateContainsItems s) = polygons s"
  "circles (updateContainsItems s) = circles s"
  "breachReturnPoint (updateContainsItems s) = breachReturnPoint s"
  "breachReturnAltitudeFact (updateContainsItems s) = breachReturnAltitudeFact s"
  "dirty (updateContainsItems s) = dirty s"
  "prefix es (emitted s) \<Longrightarrow> prefix es (emitted (updateContainsItems s))"
  by (simp_all add: updateContainsItems_def)

lemma polygons_append_fields [simp]:
  "env_of (polygons_append p s) = env_of s"
  "polygons (polygons_append p s) = polygons s @ [p]"
  "circles (polygons_append p s) = circles s"
  "breachReturnPoint (polygons_append p s) = breachReturnPoint s"
  "breachReturnAltitudeFact (polygons_append p s) = breachReturnAltitudeFact s"
  "dirty (polygons_append p s) = True"
  "prefix es (emitted s) \<Longrightarrow> prefix es (emitted (polygons_append p s))"
  by (simp_all add: polygons_append_def)

lemma circles_append_fields [simp]:
  "env_of (circles_append c s) = env_of s"
  "polygons (circles_append c s) = polygons s"
  "circles (circles_append c s) = circles s @ [c]"
  "breachReturnPoint (circles_append c s) = breachReturnPoint s"
  "breachReturnAltitudeFact (circles_append c s) = breachReturnAltitudeFact s"
  "dirty (circles_append c s) = True"
  "prefix es (emitted s) \<Longrightarrow> prefix es (emitted (circles_append c s))"
  by (simp_all add: circles_append_def)

lemma polygons_clear_fields [simp]:
  "env_of (polygons_clearAndDeleteContents s) = env_of s"
  "polygons (polygons_clearAndDeleteContents s) = []"
  "circles (polygons_clearAndDeleteContents s) = circles s"
  "breachReturnPoint (polygons_clearAndDeleteContents s) = breachReturnPoint s"
  "breachReturnAltitudeFact (polygons_clearAndDeleteContents s) = breachReturnAltitudeFact s"
  "dirty (polygons_clearAndDeleteContents s) = (dirty s \<or> polygons s \<noteq> [])"
  "prefix es (emitted s) \<Longrightarrow> prefix es (emitted (polygons_clearAndDeleteContents s))"
  by (simp_all add: polygons_clearAndDeleteContents_def)

lemma circles_clear_fields [simp]:
  "env_of (circles_clearAndDeleteContents s) = env_of s"
  "polygons (circles_clearAndDeleteContents s) = polygons s"
  "circles (circles_clearAndDeleteContents s) = []"
  "breachReturnPoint (circles_clearAndDeleteContents s) = breachReturnPoint s"
  "breachReturnAltitudeFact (circles_clearAndDeleteContents s) = breachReturnAltitudeFact s"
  "dirty (circles_clearAndDeleteContents s) = (dirty s \<or> circles s \<noteq> [])"
  "prefix es (emitted s) \<Longrightarrow> prefix es (emitted (circles_clearAndDeleteContents s))"
  by (simp_all add: circles_clearAndDeleteContents_def)

lemma emit_breachReturnPointChanged_fields [simp]:
  "env_of (emit_breachReturnPointChanged p s) = env_of s"
  "polygons (emit_breachReturnPointChanged p s) = polygons s"
  "circles (emit_breachReturnPointChanged p s) = circles s"
  "breachReturnPoint (emit_breachReturnPointChanged p s) = breachReturnPoint s"
  "breachReturnAltitudeFact (emit_breachReturnPointChanged p s) = breachReturnAltitudeFact s"
  "dirty (emit_breachReturnPointChanged p s) = True"
  "prefix es (emitted s) \<Longrightarrow> prefix es (emitted (emit_breachReturnPointChanged p s))"
  by (simp_all add: emit_breachReturnPointChanged_def)

lemma setBreachReturnPoint_fields [simp]:
  "env_of (setBreachReturnPoint p s) = env_of s"
  "polygons (setBreachReturnPoint p s) = polygons s"
  "circles (setBreachReturnPoint p s) = circles s"
  "breachReturnPoint (setBreachReturnPoint p s) = p"
  "breachReturnAltitudeFact (setBreachReturnPoint p s) = breachReturnAltitudeFact s"
  "dirty (setBreachReturnPoint p s) = (dirty s \<or> breachReturnPoint s \<noteq> p)"
  "prefix es (emitted s) \<Longrightarrow> prefix es (emitted (setBreachReturnPoint p s))"
  by (simp_all add: setBreachReturnPoint_def)

lemma fact_setRawValue_fields [simp]:
  "env_of (fact_setRawValue a s) = env_of s"
  "polygons (fact_setRawValue a s) = polygons s"
  "circles (fact_setRawValue a s) = circles s"
  "breachReturnPoint (fact_setRawValue a s) = breachReturnPoint s"
  "breachReturnAltitudeFact (fact_setRawValue a s) = a"
  "dirty (fact_setRawValue a s) = (dirty s \<or> breachReturnAltitudeFact s \<noteq> a)"
  "prefix es (emitted s) \<Longrightarrow> prefix es (emitted (fact_setRawValue a s))"
  by (simp_all add: fact_setRawValue_def)

lemma removeAll_fields [simp]:
  "env_of (removeAll s) = env_of s"
  "polygons (removeAll s) = []"
  "circles (removeAll s) = []"
  "breachReturnPoint (removeAll s) = QGeoCoordinate_default"
  "breachReturnAltitudeFact (removeAll s) = breachReturnAltitudeFact s"
  "prefix es (emitted s) \<Longrightarrow> prefix es (emitted (removeAll s))"
  by (simp_all add: removeAll_def)

lemma isValid_default [simp]: "\<not> isValid QGeoCoordinate_default"
  by (simp add: isValid_def QGeoCoordinate_default_def)

lemma isValid_setAltitude [simp]: "isValid (setAltitude a c) = isValid c"
  by (simp add: isValid_def setAltitude_def split: double.splits)

section \<open>Loading\<close>

lemma toInt_1 [simp]: "toInt (Some (JDouble (Fin 1))) = 1"
  by (simp add: toInt_def)

lemma toInt_2 [simp]: "toInt (Some (JDouble (Fin 2))) = 2"
  by (simp add: toInt_def)

lemma toInt_None [simp]: "toInt None = 0"
  by (simp add: toInt_def)

lemma load_polygons_fields:
  "env_of (snd (load_polygons ops vs s)) = env_of s
   \<and> polygons (snd (load_polygons ops vs s)) = polygons s @ parsed_polygons ops vs
   \<and> circles (snd (load_polygons ops vs s)) = circles s
   \<and> breachReturnPoint (snd (load_polygons ops vs s)) = breachReturnPoint s
   \<and> breachReturnAltitudeFact (snd (load_polygons ops vs s)) = breachReturnAltitudeFact s
   \<and> (fst (load_polygons ops vs s) = None \<longleftrightarrow> length (parsed_polygons ops vs) = length vs)
   \<and> dirty (snd (load_polygons ops vs s)) = (dirty s \<or> parsed_polygons ops vs \<noteq> [])
   \<and> (prefix es (emitted s) \<longrightarrow> prefix es (emitted (snd (load_polygons ops vs s))))"
proof (induction vs arbitrary: s)
  case Nil
  then show ?case by simp
next
  case (Cons v vs)
  show ?case
  proof (cases v)
    case (JObject obj)
    show ?thesis
    proof (cases "polygon_loadFromJson ops obj")
      case (Inl msg)
      with JObject show ?thesis by simp
    next
      case (Inr p)
      with JObject Cons.IH [of "polygons_append p s"] show ?thesis by simp
    qed
  qed simp_all
qed

lemma load_circles_fields:
  "env_of (snd (load_circles ops vs s)) = env_of s
   \<and> polygons (snd (load_circles ops vs s)) = polygons s
   \<and> circles (snd (load_circles ops vs s)) = circles s @ parsed_circles ops vs
   \<and> breachReturnPoint (snd (load_circles ops vs s)) = breachReturnPoint s
   \<and> breachReturnAltitudeFact (snd (load_circles ops vs s)) = breachReturnAltitudeFact s
   \<and> (fst (load_circles ops vs s) = None \<longleftrightarrow> length (parsed_circles ops vs) = length vs)
   \<and> dirty (snd (load_circles ops vs s)) = (dirty s \<or> parsed_circles ops vs \<noteq> [])
   \<and> (prefix es (emitted s) \<longrightarrow> prefix es (emitted (snd (load_circles ops vs s))))"
proof (induction vs arbitrary: s)
  case Nil
  then show ?case by simp
next
  case (Cons v vs)
  show ?case
  proof (cases v)
    case (JObject obj)
    show ?thesis
    proof (cases "circle_loadFromJson ops obj")
      case (Inl msg)
      with JObject show ?thesis by simp
    next
      case (Inr c)
      with JObject Cons.IH [of "circles_append c s"] show ?thesis by simp
    qed
  qed simp_all
qed

lemma load_polygons_error:
  "fst (load_polygons ops vs s) = Some e \<Longrightarrow> e = PolygonNotObject \<or> (\<exists>m. e = PolygonError m)"
proof (induction vs arbitrary: s)
  case Nil
  then show ?case by simp
next
  case (Cons v vs)
  then show ?case
    by (cases v) (auto split: sum.splits)
qed

lemma load_circles_error:
  "fst (load_circles ops vs s) = Some e \<Longrightarrow> e = CircleNotObject \<or> (\<exists>m. e = CircleError m)"
proof (induction vs arbitrary: s)
  case Nil
  then show ?case by simp
next
  case (Cons v vs)
  then show ?case
    by (cases v) (auto split: sum.splits)
qed

lemma load_unfold:
  "load ops json s =
     (if \<not> obj_contains json jsonVersionKey \<or> toInt (obj_value json jsonVersionKey) = 1
      then (None, removeAll s)
      else
        (case validateKeys json keyInfoList of
           Some k \<Rightarrow> (Some (KeyValidation k), removeAll s)
         | None \<Rightarrow>
             if toInt (obj_value json jsonVersionKey) \<noteq> 2
             then (Some UnsupportedVersion, removeAll s)
             else if fst (load_polygons ops (toArray (obj_value json jsonPolygonsKey)) (removeAll s)) \<noteq> None
             then load_polygons ops (toArray (obj_value json jsonPolygonsKey)) (removeAll s)
             else if fst (load_circles ops (toArray (obj_value json jsonCirclesKey))
                       (snd (load_polygons ops (toArray (obj_value json jsonPolygonsKey)) (removeAll s)))) \<noteq> None
             then load_circles ops (toArray (obj_value json jsonCirclesKey))
                       (snd (load_polygons ops (toArray (obj_value json jsonPolygonsKey)) (removeAll s)))
             else load_breachReturn json
                    (snd (load_circles ops (toArray (obj_value json jsonCirclesKey))
                       (snd (load_polygons ops (toArray (obj_value json jsonPolygonsKey)) (removeAll s)))))))"
  by (simp add: load_def load_breachReturn_def Let_def jsonCurrentVersion_def
        split: option.splits prod.splits)

lemma load_breachReturn_failure:
  "fst (load_breachReturn json s2) = Some e \<Longrightarrow>
   e = CoordinateError \<and> snd (load_breachReturn json s2) = s2"
  by (auto simp add: load_breachReturn_def split: if_splits option.splits)

lemma load_breachReturn_success:
  assumes "fst (load_breachReturn json s2) = None"
  shows "polygons (snd (load_breachReturn json s2)) = map clean_polygon (polygons s2)"
    and "circles (snd (load_breachReturn json s2)) = map clean_circle (circles s2)"
    and "dirty (snd (load_breachReturn json s2))
           = ((\<exists>p \<in> set (polygons s2). poly_dirty p) \<or> (\<exists>c \<in> set (circles s2). circ_dirty c))"
    and "breachReturnPoint (snd (load_breachReturn json s2))
           = (if obj_contains json jsonBreachReturnKey
              then the (loadGeoCoordinate (obj_value json jsonBreachReturnKey) True)
              else QGeoCoordinate_default)"
    and "env_of (snd (load_breachReturn json s2)) = env_of s2"
  using assms
  by (auto simp add: load_breachReturn_def setDirty_False_fields split: if_splits option.splits)

subsection \<open>Legacy documents\<close>

lemma load_legacy_eq:
  assumes "obj_value json jsonVersionKey = None \<or> obj_value json jsonVersionKey = Some (JDouble (Fin 1))"
  shows "load ops json s = (None, removeAll s)"
  using assms by (auto simp add: load_def obj_contains_def obj_value_def)

text \<open>
  C2.  When the \<open>version\<close> field is absent or is the number 1, \<open>load\<close> returns
  success with no error and leaves the document empty: no polygon, no circle and
  an invalid breach return point, whatever else the object holds.
\<close>

theorem load_legacy:
  assumes "obj_value json jsonVersionKey = None
           \<or> obj_value json jsonVersionKey = Some (JDouble (Fin 1))"
  shows "fst (load ops json s) = None
         \<and> polygons (snd (load ops json s)) = []
         \<and> circles (snd (load ops json s)) = []
         \<and> \<not> isValid (breachReturnPoint (snd (load ops json s)))
         \<and> isEmpty (snd (load ops json s))"
  using load_legacy_eq [OF assms, of ops s] by (simp add: isEmpty_def)

theorem load_legacy_witness:
  "obj_value [(''version'', JDouble (Fin 1)), (''polygons'', JArray [JObject (example_polygon_saveToJson example_polygon)])]
      jsonVersionKey = Some (JDouble (Fin 1))
   \<and> fst (load example_ops [(''version'', JDouble (Fin 1)), (''polygons'', JArray [JObject (example_polygon_saveToJson example_polygon)])]
           example_controller) = None
   \<and> polygons (snd (load example_ops [(''version'', JDouble (Fin 1)), (''polygons'', JArray [JObject (example_polygon_saveToJson example_polygon)])]
           example_controller)) = []
   \<and> circles (snd (load example_ops [(''version'', JDouble (Fin 1)), (''polygons'', JArray [JObject (example_polygon_saveToJson example_polygon)])]
           example_controller)) = []
   \<and> obj_value [(''polygons'', JArray []), (''circles'', JArray [])] jsonVersionKey = None
   \<and> fst (load example_ops [(''polygons'', JArray []), (''circles'', JArray [])] example_controller) = None
   \<and> isEmpty (snd (load example_ops [(''polygons'', JArray []), (''circles'', JArray [])] example_controller))"
proof -
  let ?j1 = "[(''version'', JDouble (Fin 1)), (''polygons'', JArray [JObject (example_polygon_saveToJson example_polygon)])]"
  let ?j0 = "[(''polygons'', JArray []), (''circles'', JArray [])]"
  have a: "obj_value ?j1 jsonVersionKey = Some (JDouble (Fin 1))"
    by (simp add: obj_value_def jsonVersionKey_def)
  have b: "obj_value ?j0 jsonVersionKey = None"
    by (simp add: obj_value_def jsonVersionKey_def)
  from a have a': "obj_value ?j1 jsonVersionKey = None \<or> obj_value ?j1 jsonVersionKey = Some (JDouble (Fin 1))"
    by simp
  from b have b': "obj_value ?j0 jsonVersionKey = None \<or> obj_value ?j0 jsonVersionKey = Some (JDouble (Fin 1))"
    by simp
  show ?thesis
    using a b load_legacy [OF a', of example_ops example_controller]
      load_legacy [OF b', of example_ops example_controller]
    by simp
qed

subsection \<open>Unsupported versions\<close>

lemma load_rejected_eq:
  assumes "obj_contains json jsonVersionKey"
    and "toInt (obj_value json jsonVersionKey) \<noteq> 1"
    and "toInt (obj_value json jsonVersionKey) \<noteq> jsonCurrentVersion"
  shows "load ops json s =
           (Some (case validateKeys json keyInfoList of
                    Some e \<Rightarrow> KeyValidation e
                  | None \<Rightarrow> UnsupportedVersion),
            removeAll s)"
  using assms by (simp add: load_def split: option.splits)

text \<open>
  C3, as the code has it.  When the \<open>version\<close> field is present and its integer
  value is neither 1 nor 2, \<open>load\<close> fails and leaves no polygon and no circle.
  The error is that of the key validation when the object does not pass it, and
  the unsupported-version error when it does: the keys are validated before the
  version is compared.
\<close>

theorem load_version_rejected:
  assumes "obj_contains json jsonVersionKey"
    and "toInt (obj_value json jsonVersionKey) \<noteq> 1"
    and "toInt (obj_value json jsonVersionKey) \<noteq> 2"
  shows "fst (load ops json s) =
           Some (case validateKeys json keyInfoList of
                   Some e \<Rightarrow> KeyValidation e
                 | None \<Rightarrow> UnsupportedVersion)
         \<and> polygons (snd (load ops json s)) = []
         \<and> circles (snd (load ops json s)) = []"
  using load_rejected_eq [of json ops s] assms by (simp add: jsonCurrentVersion_def)

text \<open>
  The object that holds only \<open>version = 3\<close> is rejected by the key validation,
  which runs first: the error is the missing \<open>circles\<close> key, not the unsupported
  version.
\<close>

theorem load_version_3_counterexample:
  "obj_contains [(''version'', JDouble (Fin 3))] jsonVersionKey
   \<and> toInt (obj_value [(''version'', JDouble (Fin 3))] jsonVersionKey) = 3
   \<and> fst (load example_ops [(''version'', JDouble (Fin 3))] example_controller)
       = Some (KeyValidation (MissingKey ''circles''))
   \<and> fst (load example_ops [(''version'', JDouble (Fin 3))] example_controller)
       \<noteq> Some UnsupportedVersion"
  by (simp add: load_unfold obj_contains_def obj_value_def toInt_def jsonVersionKey_def
        keyInfoList_def jsonCirclesKey_def jsonPolygonsKey_def jsonBreachReturnKey_def)

theorem load_version_rejected_witness:
  "fst (load example_ops
          [(''version'', JDouble (Fin 3)), (''polygons'', JArray []), (''circles'', JArray [])]
          example_controller) = Some UnsupportedVersion
   \<and> polygons (snd (load example_ops
          [(''version'', JDouble (Fin 3)), (''polygons'', JArray []), (''circles'', JArray [])]
          example_controller)) = []
   \<and> circles (snd (load example_ops
          [(''version'', JDouble (Fin 3)), (''polygons'', JArray []), (''circles'', JArray [])]
          example_controller)) = []
   \<and> fst (load example_ops [(''version'', JDouble (Fin 3))] example_controller)
       = Some (KeyValidation (MissingKey ''circles''))
   \<and> polygons (snd (load example_ops [(''version'', JDouble (Fin 3))] example_controller)) = []"
proof -
  let ?j = "[(''version'', JDouble (Fin 3)), (''polygons'', JArray []), (''circles'', JArray [])]"
  let ?k = "[(''version'', JDouble (Fin 3))]"
  have c: "obj_contains ?j jsonVersionKey" "obj_contains ?k jsonVersionKey"
    by (simp_all add: obj_contains_def jsonVersionKey_def)
  have t: "toInt (obj_value ?j jsonVersionKey) = 3" "toInt (obj_value ?k jsonVersionKey) = 3"
    by (simp_all add: obj_value_def toInt_def jsonVersionKey_def)
  have v: "validateKeys ?j keyInfoList = None"
    "validateKeys ?k keyInfoList = Some (MissingKey ''circles'')"
    by (simp_all add: keyInfoList_def obj_value_def jsonVersionKey_def jsonCirclesKey_def
          jsonPolygonsKey_def jsonBreachReturnKey_def)
  have n: "toInt (obj_value ?j jsonVersionKey) \<noteq> 1" "toInt (obj_value ?j jsonVersionKey) \<noteq> 2"
    "toInt (obj_value ?k jsonVersionKey) \<noteq> 1" "toInt (obj_value ?k jsonVersionKey) \<noteq> 2"
    using t by simp_all
  show ?thesis
    using v load_version_rejected [OF c(1) n(1) n(2), of example_ops example_controller]
      load_version_rejected [OF c(2) n(3) n(4), of example_ops example_controller]
    by simp
qed

subsection \<open>The document after a failed load\<close>

lemma load_failure_cases:
  assumes "fst (load ops json s) = Some e"
  shows "breachReturnPoint (snd (load ops json s)) = QGeoCoordinate_default
    \<and> (if e = UnsupportedVersion \<or> (\<exists>k. e = KeyValidation k) then
         polygons (snd (load ops json s)) = [] \<and> circles (snd (load ops json s)) = []
       else
         polygons (snd (load ops json s))
           = parsed_polygons ops (toArray (obj_value json jsonPolygonsKey))
         \<and> circles (snd (load ops json s))
           = (if length (parsed_polygons ops (toArray (obj_value json jsonPolygonsKey)))
                 = length (toArray (obj_value json jsonPolygonsKey))
              then parsed_circles ops (toArray (obj_value json jsonCirclesKey)) else []))"
proof -
  let ?s0 = "removeAll s"
  let ?P = "toArray (obj_value json jsonPolygonsKey)"
  let ?C = "toArray (obj_value json jsonCirclesKey)"
  let ?lp = "load_polygons ops ?P ?s0"
  let ?lc = "load_circles ops ?C (snd ?lp)"
  let ?lb = "load_breachReturn json (snd ?lc)"
  note lp = load_polygons_fields [of ops ?P ?s0 "[]"]
  note lc = load_circles_fields [of ops ?C "snd ?lp" "[]"]
  note u = load_unfold [of ops json s]
  consider
      (legacy) "load ops json s = (None, ?s0)"
    | (keys) k where "load ops json s = (Some (KeyValidation k), ?s0)"
    | (version) "load ops json s = (Some UnsupportedVersion, ?s0)"
    | (polygon) "fst ?lp \<noteq> None" "load ops json s = ?lp"
    | (circle) "fst ?lp = None" "fst ?lc \<noteq> None" "load ops json s = ?lc"
    | (breach) "fst ?lp = None" "fst ?lc = None" "load ops json s = ?lb"
    using u by (auto split: option.splits if_splits)
  then show ?thesis
  proof cases
    case legacy
    with assms show ?thesis by simp
  next
    case (keys k)
    with assms show ?thesis by auto
  next
    case version
    with assms show ?thesis by auto
  next
    case polygon
    with assms have e: "fst ?lp = Some e" by simp
    from load_polygons_error [OF e] lp polygon show ?thesis by auto
  next
    case circle
    with assms have e: "fst ?lc = Some e" by simp
    from load_circles_error [OF e] lp lc circle show ?thesis by auto
  next
    case breach
    with assms have e: "fst ?lb = Some e" by simp
    from load_breachReturn_failure [OF e] lp lc breach show ?thesis by auto
  qed
qed

lemma example_polygon_loads:
  "polygon_loadFromJson example_ops (example_polygon_saveToJson example_polygon)
     = Inr (example_polygon\<lparr>poly_interactive := False, poly_dirty := False\<rparr>)"
  by (simp add: example_ops_def example_polygon_def
        example_polygon_saveToJson_def example_polygon_loadFromJson_def obj_value_def
        saveGeoCoordinate_def loadGeoCoordinate_def)

lemma example_malformed_values:
  "obj_contains example_malformed jsonVersionKey"
  "toInt (obj_value example_malformed jsonVersionKey) = 2"
  "validateKeys example_malformed keyInfoList = None"
  "toArray (obj_value example_malformed jsonPolygonsKey)
     = [JObject (example_polygon_saveToJson example_polygon), JNull]"
  "toArray (obj_value example_malformed jsonCirclesKey) = []"
  by (simp_all add: example_malformed_def obj_contains_def obj_value_def toInt_def toArray_def
        keyInfoList_def jsonVersionKey_def jsonCirclesKey_def jsonPolygonsKey_def
        jsonBreachReturnKey_def)

lemma example_malformed_load:
  "load example_ops example_malformed s
     = (Some PolygonNotObject,
        polygons_append (example_polygon\<lparr>poly_interactive := False, poly_dirty := False\<rparr>)
          (removeAll s))"
  by (simp add: load_unfold example_malformed_values example_polygon_loads)

text \<open>
  C4, as the code has it.  When \<open>load\<close> fails it returns the error and leaves
  the breach return point invalid.  After a failure of the key validation or of
  the version check the document holds no shape.  After any other failure it
  holds the shapes that were parsed and appended before the loading stopped: the
  polygons of the entries before the first malformed one and, when every polygon
  entry was well formed, the circles of the entries before the first malformed
  one.
\<close>

theorem load_failure_keeps_parsed_shapes:
  assumes "fst (load ops json s) = Some e"
  shows "\<not> isValid (breachReturnPoint (snd (load ops json s)))
    \<and> breachReturnPoint (snd (load ops json s)) = QGeoCoordinate_default
    \<and> (if e = UnsupportedVersion \<or> (\<exists>k. e = KeyValidation k) then
         polygons (snd (load ops json s)) = [] \<and> circles (snd (load ops json s)) = []
       else
         polygons (snd (load ops json s))
           = parsed_polygons ops (toArray (obj_value json jsonPolygonsKey))
         \<and> circles (snd (load ops json s))
           = (if length (parsed_polygons ops (toArray (obj_value json jsonPolygonsKey)))
                 = length (toArray (obj_value json jsonPolygonsKey))
              then parsed_circles ops (toArray (obj_value json jsonCirclesKey)) else []))"
  using load_failure_cases [OF assms] by simp

text \<open>
  A second polygon entry that is not an object stops the loading after the first
  polygon was appended: the failed \<open>load\<close> leaves one polygon in the document.
\<close>

theorem load_malformed_second_polygon_counterexample:
  "fst (load example_ops example_malformed example_controller) = Some PolygonNotObject
   \<and> length (polygons (snd (load example_ops example_malformed example_controller))) = 1
   \<and> polygons (snd (load example_ops example_malformed example_controller))
       = [example_polygon\<lparr>poly_interactive := False, poly_dirty := False\<rparr>]"
  by (simp add: example_malformed_load)

theorem load_failure_keeps_parsed_shapes_witness:
  "fst (load example_ops example_malformed example_controller) = Some PolygonNotObject
   \<and> breachReturnPoint (snd (load example_ops example_malformed example_controller))
       = QGeoCoordinate_default
   \<and> polygons (snd (load example_ops example_malformed example_controller))
       = [example_polygon\<lparr>poly_interactive := False, poly_dirty := False\<rparr>]
   \<and> circles (snd (load example_ops example_malformed example_controller)) = []"
proof -
  have f: "fst (load example_ops example_malformed example_controller) = Some PolygonNotObject"
    by (simp add: example_malformed_load)
  show ?thesis
    using f load_failure_keeps_parsed_shapes [OF f]
    by (simp add: example_malformed_values example_polygon_loads)
qed

section \<open>Saving\<close>

lemma map_of_obj_insert [simp]:
  "map_of (obj_insert k v obj) k' = (if k' = k then Some v else map_of obj k')"
  by (induction obj) auto

lemma obj_value_obj_insert [simp]:
  "obj_value (obj_insert k v obj) k' = (if k' = k then Some v else obj_value obj k')"
  by (simp add: obj_value_def)

lemma obj_contains_obj_insert [simp]:
  "obj_contains (obj_insert k v obj) k' = (k' = k \<or> obj_contains obj k')"
  by (simp add: obj_contains_def)

lemma keys_distinct [simp]:
  "jsonVersionKey \<noteq> jsonPolygonsKey" "jsonVersionKey \<noteq> jsonCirclesKey"
  "jsonVersionKey \<noteq> jsonBreachReturnKey" "jsonPolygonsKey \<noteq> jsonCirclesKey"
  "jsonPolygonsKey \<noteq> jsonBreachReturnKey" "jsonCirclesKey \<noteq> jsonBreachReturnKey"
  "jsonPolygonsKey \<noteq> jsonVersionKey" "jsonCirclesKey \<noteq> jsonVersionKey"
  "jsonBreachReturnKey \<noteq> jsonVersionKey" "jsonCirclesKey \<noteq> jsonPolygonsKey"
  "jsonBreachReturnKey \<noteq> jsonPolygonsKey" "jsonBreachReturnKey \<noteq> jsonCirclesKey"
  by (simp_all add: jsonVersionKey_def jsonPolygonsKey_def jsonCirclesKey_def
        jsonBreachReturnKey_def)

lemma save_state:
  "snd (save ops s json0) =
     (if isValid (breachReturnPoint s)
      then s\<lparr>breachReturnPoint := setAltitude (breachReturnAltitudeFact s) (breachReturnPoint s)\<rparr>
      else s)"
  by (simp add: save_def Let_def)

lemma save_json:
  "obj_value (fst (save ops s json0)) jsonVersionKey = Some (JDouble (Fin 2))"
  "obj_value (fst (save ops s json0)) jsonPolygonsKey
     = Some (JArray (map (\<lambda>p. JObject (polygon_saveToJson ops p)) (polygons s)))"
  "obj_value (fst (save ops s json0)) jsonCirclesKey
     = Some (JArray (map (\<lambda>c. JObject (circle_saveToJson ops c)) (circles s)))"
  "obj_value (fst (save ops s json0)) jsonBreachReturnKey
     = (if isValid (breachReturnPoint s)
        then Some (JArray [JDouble (longitude (breachReturnPoint s)),
                           JDouble (latitude (breachReturnPoint s)),
                           JDouble (breachReturnAltitudeFact s)])
        else obj_value json0 jsonBreachReturnKey)"
  by (simp_all add: save_def Let_def jsonCurrentVersion_def saveGeoCoordinate_def
        setAltitude_def)

lemma save_contains:
  "obj_contains (fst (save ops s json0)) jsonVersionKey"
  "obj_contains (fst (save ops s json0)) jsonBreachReturnKey
     = (isValid (breachReturnPoint s) \<or> obj_contains json0 jsonBreachReturnKey)"
  by (simp_all add: save_def Let_def)



subsection \<open>Save followed by load\<close>

lemma save_validates:
  assumes "\<not> obj_contains json0 jsonBreachReturnKey"
  shows "validateKeys (fst (save ops s json0)) keyInfoList = None"
  using assms save_json [of ops s json0]
  by (simp add: keyInfoList_def obj_contains_def obj_value_def)

lemma parsed_saved_polygons:
  assumes "list_all (polygon_roundtrips ops) ps"
  shows "length (parsed_polygons ops (map (\<lambda>p. JObject (polygon_saveToJson ops p)) ps)) = length ps
       \<and> list_all2 same_polygon ps (parsed_polygons ops (map (\<lambda>p. JObject (polygon_saveToJson ops p)) ps))
       \<and> list_all (\<lambda>p. \<not> poly_dirty p) (parsed_polygons ops (map (\<lambda>p. JObject (polygon_saveToJson ops p)) ps))"
  using assms
  by (induction ps) (auto simp add: polygon_roundtrips_def split: sum.splits)

lemma parsed_saved_circles:
  assumes "list_all (circle_roundtrips ops) cs"
  shows "length (parsed_circles ops (map (\<lambda>c. JObject (circle_saveToJson ops c)) cs)) = length cs
       \<and> list_all2 same_circle cs (parsed_circles ops (map (\<lambda>c. JObject (circle_saveToJson ops c)) cs))
       \<and> list_all (\<lambda>c. \<not> circ_dirty c) (parsed_circles ops (map (\<lambda>c. JObject (circle_saveToJson ops c)) cs))"
  using assms
  by (induction cs) (auto simp add: circle_roundtrips_def split: sum.splits)

lemma map_clean_polygon_id:
  "list_all (\<lambda>p. \<not> poly_dirty p) ps \<Longrightarrow> map clean_polygon ps = ps"
  by (induction ps) (simp_all add: clean_polygon_def)

lemma map_clean_circle_id:
  "list_all (\<lambda>c. \<not> circ_dirty c) cs \<Longrightarrow> map clean_circle cs = cs"
  by (induction cs) (simp_all add: clean_circle_def)

lemma loadGeoCoordinate_saved:
  "loadGeoCoordinate (Some (JArray [JDouble (longitude c), JDouble (latitude c), JDouble a])) True
     = Some (setAltitude a c)"
  by (simp add: loadGeoCoordinate_def setAltitude_def)

lemma save_load_result:
  assumes ps: "list_all (polygon_roundtrips ops) (polygons s)"
    and cs: "list_all (circle_roundtrips ops) (circles s)"
    and nb: "\<not> obj_contains json0 jsonBreachReturnKey"
  shows "fst (load ops (fst (save ops s json0)) t) = None"
    and "list_all2 same_polygon (polygons s) (polygons (snd (load ops (fst (save ops s json0)) t)))"
    and "list_all2 same_circle (circles s) (circles (snd (load ops (fst (save ops s json0)) t)))"
    and "breachReturnPoint (snd (load ops (fst (save ops s json0)) t))
           = (if isValid (breachReturnPoint s)
              then setAltitude (breachReturnAltitudeFact s) (breachReturnPoint s)
              else QGeoCoordinate_default)"
    and "\<not> dirty (snd (load ops (fst (save ops s json0)) t))"
    and "env_of (snd (load ops (fst (save ops s json0)) t)) = env_of t"
proof -
  let ?j = "fst (save ops s json0)"
  let ?s0 = "removeAll t"
  let ?P = "map (\<lambda>p. JObject (polygon_saveToJson ops p)) (polygons s)"
  let ?C = "map (\<lambda>c. JObject (circle_saveToJson ops c)) (circles s)"
  let ?lp = "load_polygons ops ?P ?s0"
  let ?lc = "load_circles ops ?C (snd ?lp)"
  let ?lb = "load_breachReturn ?j (snd ?lc)"
  note sj = save_json [of ops s json0]
  note pp = parsed_saved_polygons [OF ps]
  note pc = parsed_saved_circles [OF cs]
  note lp = load_polygons_fields [of ops ?P ?s0 "[]"]
  note lc = load_circles_fields [of ops ?C "snd ?lp" "[]"]
  have P: "toArray (obj_value ?j jsonPolygonsKey) = ?P"
    and C: "toArray (obj_value ?j jsonCirclesKey) = ?C"
    by (simp_all add: sj toArray_def)
  have lp_ok: "fst ?lp = None" using lp pp by simp
  have lc_ok: "fst ?lc = None" using lc pc by simp
  have l: "load ops ?j t = ?lb"
    using lp_ok lc_ok save_validates [OF nb, of ops s]
    by (simp add: load_unfold [of ops ?j t] save_contains sj(1) P C)
  have polys: "polygons (snd ?lc) = parsed_polygons ops ?P"
    and circs: "circles (snd ?lc) = parsed_circles ops ?C"
    using lp lc by simp_all
  have b: "obj_contains ?j jsonBreachReturnKey = isValid (breachReturnPoint s)"
    using nb by (simp add: save_contains)
  have lb_ok: "fst ?lb = None"
    by (simp add: load_breachReturn_def b sj(4) loadGeoCoordinate_saved)
  note r = load_breachReturn_success [OF lb_ok]
  show "fst (load ops ?j t) = None"
    using l lb_ok by simp
  show "list_all2 same_polygon (polygons s) (polygons (snd (load ops ?j t)))"
    using l r(1) polys pp by (simp add: map_clean_polygon_id)
  show "list_all2 same_circle (circles s) (circles (snd (load ops ?j t)))"
    using l r(2) circs pc by (simp add: map_clean_circle_id)
  show "breachReturnPoint (snd (load ops ?j t))
           = (if isValid (breachReturnPoint s)
              then setAltitude (breachReturnAltitudeFact s) (breachReturnPoint s)
              else QGeoCoordinate_default)"
    using l r(4) b by (simp add: sj(4) loadGeoCoordinate_saved)
  show "\<not> dirty (snd (load ops ?j t))"
    using l r(3) polys circs pp pc by (simp add: list_all_iff)
  show "env_of (snd (load ops ?j t)) = env_of t"
    using l r(5) lp lc by simp
qed

lemma example_polygon_roundtrips: "polygon_roundtrips example_ops example_polygon"
  by (simp add: polygon_roundtrips_def example_ops_def example_polygon_def
        example_polygon_saveToJson_def example_polygon_loadFromJson_def obj_value_def
        saveGeoCoordinate_def loadGeoCoordinate_def same_polygon_def)

lemma example_circle_roundtrips: "circle_roundtrips example_ops example_circle"
  by (simp add: circle_roundtrips_def example_ops_def example_circle_def
        example_circle_saveToJson_def example_circle_loadFromJson_def obj_value_def
        saveGeoCoordinate_def loadGeoCoordinate_def same_circle_def)

text \<open>
  C1, as the code has it.  Take a document and shape serializers under which each
  of its polygons and circles round-trips.  \<open>save\<close> into an object that holds no
  \<open>breachReturn\<close> key, followed by \<open>load\<close> of the result into any controller,
  succeeds and yields equivalent polygons and circles, in the same number and
  order, and a dirty flag that is false.  The breach return point keeps its
  validity; a valid point comes back with its latitude and longitude and with the
  value of the altitude fact at the time of \<open>save\<close> as its altitude, which is
  also what \<open>save\<close> left in the saved document; an invalid point comes back as
  the default coordinate.
\<close>

theorem save_load_roundtrip:
  assumes "list_all (polygon_roundtrips ops) (polygons s)"
    and "list_all (circle_roundtrips ops) (circles s)"
    and "\<not> obj_contains json0 jsonBreachReturnKey"
  shows "fst (load ops (fst (save ops s json0)) t) = None
    \<and> length (polygons (snd (load ops (fst (save ops s json0)) t))) = length (polygons s)
    \<and> length (circles (snd (load ops (fst (save ops s json0)) t))) = length (circles s)
    \<and> list_all2 same_polygon (polygons s) (polygons (snd (load ops (fst (save ops s json0)) t)))
    \<and> list_all2 same_circle (circles s) (circles (snd (load ops (fst (save ops s json0)) t)))
    \<and> isValid (breachReturnPoint (snd (load ops (fst (save ops s json0)) t)))
        = isValid (breachReturnPoint s)
    \<and> breachReturnPoint (snd (load ops (fst (save ops s json0)) t))
        = (if isValid (breachReturnPoint s)
           then (breachReturnPoint s)\<lparr>altitude := breachReturnAltitudeFact s\<rparr>
           else QGeoCoordinate_default)
    \<and> (isValid (breachReturnPoint s) \<longrightarrow>
          breachReturnPoint (snd (load ops (fst (save ops s json0)) t))
            = breachReturnPoint (snd (save ops s json0)))
    \<and> dirty (snd (load ops (fst (save ops s json0)) t)) = False"
proof -
  note r = save_load_result [OF assms, of t]
  have l: "length (polygons (snd (load ops (fst (save ops s json0)) t))) = length (polygons s)"
    "length (circles (snd (load ops (fst (save ops s json0)) t))) = length (circles s)"
    using r(2,3) by (simp_all add: list_all2_lengthD)
  show ?thesis
    using r l by (simp add: save_state setAltitude_def isValid_setAltitude [unfolded setAltitude_def])
qed

text \<open>
  The breach return point of the example document has altitude 10 and the
  altitude fact holds 50: after \<open>save\<close> and \<open>load\<close> the point has altitude 50.
\<close>

theorem save_load_altitude_counterexample:
  "breachReturnPoint example_controller
     = \<lparr>latitude = Fin 47, longitude = Fin 8, altitude = Fin 10\<rparr>
   \<and> breachReturnPoint
        (snd (load example_ops (fst (save example_ops example_controller [])) example_controller))
     = \<lparr>latitude = Fin 47, longitude = Fin 8, altitude = Fin 50\<rparr>
   \<and> breachReturnPoint
        (snd (load example_ops (fst (save example_ops example_controller [])) example_controller))
     \<noteq> breachReturnPoint example_controller"
proof -
  have p: "list_all (polygon_roundtrips example_ops) (polygons example_controller)"
    by (simp add: example_controller_def example_polygon_roundtrips)
  have c: "list_all (circle_roundtrips example_ops) (circles example_controller)"
    by (simp add: example_controller_def example_circle_roundtrips)
  have n: "\<not> obj_contains [] jsonBreachReturnKey"
    by (simp add: obj_contains_def)
  have v: "isValid (breachReturnPoint example_controller)"
    by (simp add: example_controller_def isValid_def)
  show ?thesis
    using v save_load_result(4) [OF p c n, of example_controller]
    by (simp add: example_controller_def setAltitude_def)
qed

theorem save_load_roundtrip_witness:
  "fst (load example_ops (fst (save example_ops example_controller []))
          (snd (save example_ops example_controller []))) = None
   \<and> length (polygons (snd (load example_ops (fst (save example_ops example_controller []))
          (snd (save example_ops example_controller []))))) = 1
   \<and> length (circles (snd (load example_ops (fst (save example_ops example_controller []))
          (snd (save example_ops example_controller []))))) = 1
   \<and> list_all2 same_polygon [example_polygon]
        (polygons (snd (load example_ops (fst (save example_ops example_controller []))
          (snd (save example_ops example_controller [])))))
   \<and> breachReturnPoint (snd (load example_ops (fst (save example_ops example_controller []))
          (snd (save example_ops example_controller []))))
       = \<lparr>latitude = Fin 47, longitude = Fin 8, altitude = Fin 50\<rparr>
   \<and> dirty (snd (load example_ops (fst (save example_ops example_controller []))
          (snd (save example_ops example_controller [])))) = False
   \<and> fst (load example_ops (fst (save example_ops (removeAll example_controller) []))
          example_controller) = None
   \<and> breachReturnPoint (snd (load example_ops (fst (save example_ops (removeAll example_controller) []))
          example_controller)) = QGeoCoordinate_default
   \<and> polygons (snd (load example_ops (fst (save example_ops (removeAll example_controller) []))
          example_controller)) = []"
proof -
  have p: "list_all (polygon_roundtrips example_ops) (polygons example_controller)"
    by (simp add: example_controller_def example_polygon_roundtrips)
  have c: "list_all (circle_roundtrips example_ops) (circles example_controller)"
    by (simp add: example_controller_def example_circle_roundtrips)
  have p0: "list_all (polygon_roundtrips example_ops) (polygons (removeAll example_controller))"
    by simp
  have c0: "list_all (circle_roundtrips example_ops) (circles (removeAll example_controller))"
    by simp
  have n: "\<not> obj_contains [] jsonBreachReturnKey"
    by (simp add: obj_contains_def)
  have v: "isValid (breachReturnPoint example_controller)"
    by (simp add: example_controller_def isValid_def)
  have e: "polygons example_controller = [example_polygon]"
    "circles example_controller = [example_circle]"
    "breachReturnPoint example_controller = \<lparr>latitude = Fin 47, longitude = Fin 8, altitude = Fin 10\<rparr>"
    "breachReturnAltitudeFact example_controller = Fin 50"
    by (simp_all add: example_controller_def)
  show ?thesis
    using v e
      save_load_roundtrip [OF p c n, of "snd (save example_ops example_controller [])"]
      save_load_roundtrip [OF p0 c0 n, of example_controller]
    by simp
qed

section \<open>Guarded requests\<close>

lemma request_rejected:
  "offline s \<or> syncInProgress s \<Longrightarrow> request r s = s"
  by (cases r) (auto simp add: loadFromVehicle_def sendToVehicle_def removeAllFromVehicle_def)

lemma requests_rejected:
  "offline s \<or> syncInProgress s \<Longrightarrow> fold request rs s = s"
  by (induction rs) (simp_all add: request_rejected)

lemma request_accepted:
  assumes "\<not> offline s" and "\<not> syncInProgress s"
  shows "length (calls (obstacleManager (request r s))) = Suc (length (calls (obstacleManager s)))"
  using assms
  by (cases r)
     (simp_all add: loadFromVehicle_def sendToVehicle_def removeAllFromVehicle_def
        manager_call_def Let_def)

text \<open>
  C5.  While the session is offline or the transport reports an operation in
  progress, \<open>sendToVehicle\<close>, \<open>loadFromVehicle\<close> and \<open>removeAllFromVehicle\<close> each
  return the controller as it was: the document is unchanged and nothing is
  added to the requests issued to the transport.  The same holds for any
  sequence of such attempts, so no request is issued while one is outstanding.
\<close>

theorem guard_rejects_requests:
  assumes "offline s \<or> syncInProgress s"
  shows "sendToVehicle s = s
       \<and> loadFromVehicle s = s
       \<and> removeAllFromVehicle s = s
       \<and> fold request rs s = s
       \<and> calls (obstacleManager (sendToVehicle s)) = calls (obstacleManager s)
       \<and> calls (obstacleManager (fold request rs s)) = calls (obstacleManager s)"
  using request_rejected [OF assms, of SendToVehicle]
    request_rejected [OF assms, of LoadFromVehicle]
    request_rejected [OF assms, of RemoveAllFromVehicle]
    requests_rejected [OF assms, of rs]
  by simp

theorem guard_rejects_requests_witness:
  "syncInProgress (example_controller\<lparr>obstacleManager := example_manager\<lparr>inProgress := True\<rparr>\<rparr>)
   \<and> sendToVehicle (example_controller\<lparr>obstacleManager := example_manager\<lparr>inProgress := True\<rparr>\<rparr>)
       = example_controller\<lparr>obstacleManager := example_manager\<lparr>inProgress := True\<rparr>\<rparr>
   \<and> calls (obstacleManager
        (fold request [SendToVehicle, LoadFromVehicle, RemoveAllFromVehicle, SendToVehicle]
           (example_controller\<lparr>obstacleManager := example_manager\<lparr>inProgress := True\<rparr>\<rparr>))) = []"
proof -
  let ?s = "example_controller\<lparr>obstacleManager := example_manager\<lparr>inProgress := True\<rparr>\<rparr>"
  have g: "syncInProgress ?s"
    by (simp add: syncInProgress_def)
  then have h: "offline ?s \<or> syncInProgress ?s" by simp
  have c: "calls (obstacleManager ?s) = []"
    by (simp add: example_manager_def)
  show ?thesis
    using g c
      guard_rejects_requests [OF h, of "[SendToVehicle, LoadFromVehicle, RemoveAllFromVehicle, SendToVehicle]"]
    by simp
qed

section \<open>Reconciliation\<close>

lemma setReturnPointFromManager_fields [simp]:
  "env_of (setReturnPointFromManager p s) = env_of s"
  "polygons (setReturnPointFromManager p s) = polygons s"
  "circles (setReturnPointFromManager p s) = circles s"
  "breachReturnPoint (setReturnPointFromManager p s) = p"
  "breachReturnAltitudeFact (setReturnPointFromManager p s)
     = (if isValid p then altitude p else breachReturnDefaultAltitude s)"
  "dirty (setReturnPointFromManager p s) = True"
  "prefix es (emitted s) \<Longrightarrow> prefix es (emitted (setReturnPointFromManager p s))"
  by (simp_all add: setReturnPointFromManager_def Let_def env_proj(5))

lemma fold_polygons_append:
  "env_of (fold (\<lambda>p. polygons_append (f p)) ps s) = env_of s
   \<and> polygons (fold (\<lambda>p. polygons_append (f p)) ps s) = polygons s @ map f ps
   \<and> circles (fold (\<lambda>p. polygons_append (f p)) ps s) = circles s
   \<and> breachReturnPoint (fold (\<lambda>p. polygons_append (f p)) ps s) = breachReturnPoint s
   \<and> breachReturnAltitudeFact (fold (\<lambda>p. polygons_append (f p)) ps s) = breachReturnAltitudeFact s
   \<and> dirty (fold (\<lambda>p. polygons_append (f p)) ps s) = (dirty s \<or> ps \<noteq> [])
   \<and> (prefix es (emitted s) \<longrightarrow> prefix es (emitted (fold (\<lambda>p. polygons_append (f p)) ps s)))"
proof (induction ps arbitrary: s)
  case Nil
  then show ?case by simp
next
  case (Cons p ps)
  from Cons [of "polygons_append (f p) s"] show ?case by simp
qed

lemma fold_circles_append:
  "env_of (fold (\<lambda>c. circles_append (f c)) cs s) = env_of s
   \<and> polygons (fold (\<lambda>c. circles_append (f c)) cs s) = polygons s
   \<and> circles (fold (\<lambda>c. circles_append (f c)) cs s) = circles s @ map f cs
   \<and> breachReturnPoint (fold (\<lambda>c. circles_append (f c)) cs s) = breachReturnPoint s
   \<and> breachReturnAltitudeFact (fold (\<lambda>c. circles_append (f c)) cs s) = breachReturnAltitudeFact s
   \<and> dirty (fold (\<lambda>c. circles_append (f c)) cs s) = (dirty s \<or> cs \<noteq> [])
   \<and> (prefix es (emitted s) \<longrightarrow> prefix es (emitted (fold (\<lambda>c. circles_append (f c)) cs s)))"
proof (induction cs arbitrary: s)
  case Nil
  then show ?case by simp
next
  case (Cons c cs)
  from Cons [of "circles_append (f c) s"] show ?case by simp
qed

lemma setFenceFromManager_fields:
  "env_of (setFenceFromManager ops ps cs s) = env_of s
   \<and> breachReturnPoint (setFenceFromManager ops ps cs s) = breachReturnPoint s
   \<and> breachReturnAltitudeFact (setFenceFromManager ops ps cs s) = breachReturnAltitudeFact s
   \<and> (prefix es (emitted s) \<longrightarrow> prefix es (emitted (setFenceFromManager ops ps cs s)))
   \<and> (dirty s \<longrightarrow> polygons (setFenceFromManager ops ps cs s)
                  = map (\<lambda>p. clean_polygon (polygon_copy ops p)) ps)
   \<and> (dirty s \<longrightarrow> circles (setFenceFromManager ops ps cs s)
                  = map (\<lambda>c. clean_circle (circle_copy ops c)) cs)"
proof -
  let ?s2 = "circles_clearAndDeleteContents (polygons_clearAndDeleteContents s)"
  let ?s3 = "fold (\<lambda>p. polygons_append (polygon_copy ops p)) ps ?s2"
  let ?s4 = "fold (\<lambda>c. circles_append (circle_copy ops c)) cs ?s3"
  note a = fold_polygons_append [of "polygon_copy ops" ps ?s2 es]
  note b = fold_circles_append [of "circle_copy ops" cs ?s3 es]
  have d: "setFenceFromManager ops ps cs s = setDirty False ?s4"
    by (simp add: setFenceFromManager_def Let_def)
  show ?thesis
    using a b by (simp add: d setDirty_False_fields)
qed

lemma managerLoadComplete_unfold:
  "managerLoadComplete ops s =
     (if flyView s \<or> itemsRequested s \<or> isEmpty s
      then (reconcile ops s)\<lparr>itemsRequested := False\<rparr>
      else s\<lparr>itemsRequested := False\<rparr>)"
  by (simp add: managerLoadComplete_def reconcile_def Let_def env_proj(4))

lemma reconcile_fields:
  "env_of (reconcile ops s) = env_of s"
  "polygons (reconcile ops s)
     = map (\<lambda>p. clean_polygon (polygon_copy ops p)) (manager_polygons (obstacleManager s))"
  "circles (reconcile ops s)
     = map (\<lambda>c. clean_circle (circle_copy ops c)) (manager_circles (obstacleManager s))"
  "breachReturnPoint (reconcile ops s) = manager_breachReturnPoint (obstacleManager s)"
  "breachReturnAltitudeFact (reconcile ops s)
     = (if isValid (manager_breachReturnPoint (obstacleManager s))
        then altitude (manager_breachReturnPoint (obstacleManager s))
        else breachReturnDefaultAltitude s)"
  "\<not> dirty (reconcile ops s)"
  "\<exists>es. emitted (reconcile ops s) = emitted s @ es @ [LoadComplete]"
proof -
  let ?m = "obstacleManager s"
  let ?s1 = "setReturnPointFromManager (manager_breachReturnPoint ?m) s"
  let ?s2 = "setFenceFromManager ops (manager_polygons ?m) (manager_circles ?m) ?s1"
  let ?s3 = "setDirty False ?s2"
  have d1: "dirty ?s1" by simp
  note f = setFenceFromManager_fields [of ops "manager_polygons ?m" "manager_circles ?m" ?s1 "emitted s"]
  have fp: "polygons ?s2 = map (\<lambda>p. clean_polygon (polygon_copy ops p)) (manager_polygons ?m)"
    and fc: "circles ?s2 = map (\<lambda>c. clean_circle (circle_copy ops c)) (manager_circles ?m)"
    using f d1 by simp_all
  have fe: "env_of ?s2 = env_of s" and fb: "breachReturnPoint ?s2 = manager_breachReturnPoint ?m"
    and fa: "breachReturnAltitudeFact ?s2 = (if isValid (manager_breachReturnPoint ?m)
        then altitude (manager_breachReturnPoint ?m)
        else breachReturnDefaultAltitude s)"
    and fx: "prefix (emitted s) (emitted ?s2)"
    using f by simp_all
  have r: "reconcile ops s = emit LoadComplete ?s3"
    by (simp add: reconcile_def)
  show "env_of (reconcile ops s) = env_of s"
    by (simp add: r fe)
  show "polygons (reconcile ops s)
     = map (\<lambda>p. clean_polygon (polygon_copy ops p)) (manager_polygons ?m)"
    by (simp add: r setDirty_False_fields fp o_def)
  show "circles (reconcile ops s)
     = map (\<lambda>c. clean_circle (circle_copy ops c)) (manager_circles ?m)"
    by (simp add: r setDirty_False_fields fc o_def)
  show "breachReturnPoint (reconcile ops s) = manager_breachReturnPoint ?m"
    by (simp add: r fb)
  show "breachReturnAltitudeFact (reconcile ops s)
     = (if isValid (manager_breachReturnPoint ?m)
        then altitude (manager_breachReturnPoint ?m)
        else breachReturnDefaultAltitude s)"
    by (simp add: r fa)
  show "\<not> dirty (reconcile ops s)"
    by (simp add: r setDirty_False_fields fp fc)
  have "prefix (emitted s) (emitted ?s3)"
    by (simp add: fx)
  then obtain es where "emitted ?s3 = emitted s @ es"
    by (auto simp add: prefix_def)
  then show "\<exists>es. emitted (reconcile ops s) = emitted s @ es @ [LoadComplete]"
    by (simp add: r)
qed

text \<open>
  C7.  The load-complete callback leaves \<open>itemsRequested\<close> false in every case.
  When the view is the fly view, or items were requested, or the document is
  empty, it replaces the polygons and circles by clean copies of those the
  transport reports, sets the breach return point to the one the transport
  reports, leaves the dirty flag false and emits \<open>loadComplete\<close> last.  Otherwise
  it changes nothing but \<open>itemsRequested\<close>.  So signals are emitted exactly when
  one of the three conditions holds.
\<close>

theorem managerLoadComplete_reconciles:
  "itemsRequested (managerLoadComplete ops s) = False
   \<and> ((flyView s \<or> itemsRequested s \<or> isEmpty s) \<longrightarrow>
        polygons (managerLoadComplete ops s)
          = map (\<lambda>p. clean_polygon (polygon_copy ops p)) (manager_polygons (obstacleManager s))
        \<and> circles (managerLoadComplete ops s)
          = map (\<lambda>c. clean_circle (circle_copy ops c)) (manager_circles (obstacleManager s))
        \<and> breachReturnPoint (managerLoadComplete ops s)
          = manager_breachReturnPoint (obstacleManager s)
        \<and> dirty (managerLoadComplete ops s) = False
        \<and> (\<exists>es. emitted (managerLoadComplete ops s) = emitted s @ es @ [LoadComplete]))
   \<and> (\<not> (flyView s \<or> itemsRequested s \<or> isEmpty s) \<longrightarrow>
        managerLoadComplete ops s = s\<lparr>itemsRequested := False\<rparr>)
   \<and> (emitted (managerLoadComplete ops s) \<noteq> emitted s
        \<longleftrightarrow> flyView s \<or> itemsRequested s \<or> isEmpty s)"
proof (cases "flyView s \<or> itemsRequested s \<or> isEmpty s")
  case True
  then have u: "managerLoadComplete ops s = (reconcile ops s)\<lparr>itemsRequested := False\<rparr>"
    by (simp add: managerLoadComplete_unfold)
  from reconcile_fields(7) [of ops s]
  obtain es where es: "emitted (reconcile ops s) = emitted s @ es @ [LoadComplete]" by blast
  show ?thesis
    using True es by (simp add: u reconcile_fields(2,3,4,6))
next
  case False
  then show ?thesis
    by (simp add: managerLoadComplete_unfold)
qed

theorem managerLoadComplete_reconciles_witness:
  "isEmpty example_controller = False
   \<and> polygons (managerLoadComplete example_ops example_controller) = [example_polygon]
   \<and> dirty (managerLoadComplete example_ops example_controller) = True
   \<and> emitted (managerLoadComplete example_ops example_controller) = []
   \<and> polygons (managerLoadComplete example_ops (example_controller\<lparr>itemsRequested := True\<rparr>))
       = [example_polygon\<lparr>poly_interactive := False, poly_dirty := False\<rparr>]
   \<and> circles (managerLoadComplete example_ops (example_controller\<lparr>itemsRequested := True\<rparr>))
       = [example_circle]
   \<and> breachReturnPoint (managerLoadComplete example_ops (example_controller\<lparr>itemsRequested := True\<rparr>))
       = \<lparr>latitude = Fin 46, longitude = Fin 7, altitude = Fin 30\<rparr>
   \<and> dirty (managerLoadComplete example_ops (example_controller\<lparr>itemsRequested := True\<rparr>)) = False
   \<and> itemsRequested (managerLoadComplete example_ops (example_controller\<lparr>itemsRequested := True\<rparr>)) = False
   \<and> emitted (managerLoadComplete example_ops (example_controller\<lparr>itemsRequested := True\<rparr>)) \<noteq> []"
proof -
  have e: "\<not> isEmpty example_controller"
    by (simp add: isEmpty_def example_controller_def)
  have g0: "\<not> (flyView example_controller \<or> itemsRequested example_controller
               \<or> isEmpty example_controller)"
    using e by (simp add: example_controller_def)
  have g1: "flyView (example_controller\<lparr>itemsRequested := True\<rparr>)
            \<or> itemsRequested (example_controller\<lparr>itemsRequested := True\<rparr>)
            \<or> isEmpty (example_controller\<lparr>itemsRequested := True\<rparr>)"
    by simp
  have m: "manager_polygons (obstacleManager example_controller) = [example_polygon]"
    "manager_circles (obstacleManager example_controller) = [example_circle]"
    "manager_breachReturnPoint (obstacleManager example_controller)
       = \<lparr>latitude = Fin 46, longitude = Fin 7, altitude = Fin 30\<rparr>"
    "polygons example_controller = [example_polygon]"
    "dirty example_controller" "emitted example_controller = []"
    "\<not> itemsRequested example_controller"
    by (simp_all add: example_controller_def example_manager_def)
  have c: "clean_polygon (polygon_copy example_ops example_polygon)
             = example_polygon\<lparr>poly_interactive := False, poly_dirty := False\<rparr>"
    "clean_circle (circle_copy example_ops example_circle) = example_circle"
    by (simp_all add: clean_polygon_def clean_circle_def example_ops_def example_circle_def)
  show ?thesis
    using e g0 g1 m c
      managerLoadComplete_reconciles [of example_ops example_controller]
      managerLoadComplete_reconciles [of example_ops "example_controller\<lparr>itemsRequested := True\<rparr>"]
    by auto
qed

text \<open>
  C8.  \<open>showPlanFromManagerVehicle\<close> returns true exactly when the session is
  offline, or the vehicle's initial plan request is not complete, or a sync is in
  progress.  Offline it changes nothing; in the other two cases it sets
  \<open>itemsRequested\<close> and changes nothing else.  Otherwise it returns false after
  running the load-complete callback with \<open>itemsRequested\<close> set, which
  reconciles the document with what the transport reports at that moment.
\<close>

theorem showPlanFromManagerVehicle_cases:
  "(fst (showPlanFromManagerVehicle ops s)
      \<longleftrightarrow> offline s \<or> \<not> initialPlanRequestComplete (managerVehicle s) \<or> syncInProgress s)
   \<and> (offline s \<longrightarrow> snd (showPlanFromManagerVehicle ops s) = s)
   \<and> (\<not> offline s \<and> (\<not> initialPlanRequestComplete (managerVehicle s) \<or> syncInProgress s) \<longrightarrow>
        snd (showPlanFromManagerVehicle ops s) = s\<lparr>itemsRequested := True\<rparr>)
   \<and> (\<not> offline s \<and> initialPlanRequestComplete (managerVehicle s) \<and> \<not> syncInProgress s \<longrightarrow>
        snd (showPlanFromManagerVehicle ops s)
          = managerLoadComplete ops (s\<lparr>itemsRequested := True\<rparr>)
        \<and> polygons (snd (showPlanFromManagerVehicle ops s))
          = map (\<lambda>p. clean_polygon (polygon_copy ops p)) (manager_polygons (obstacleManager s))
        \<and> circles (snd (showPlanFromManagerVehicle ops s))
          = map (\<lambda>c. clean_circle (circle_copy ops c)) (manager_circles (obstacleManager s))
        \<and> breachReturnPoint (snd (showPlanFromManagerVehicle ops s))
          = manager_breachReturnPoint (obstacleManager s)
        \<and> dirty (snd (showPlanFromManagerVehicle ops s)) = False
        \<and> itemsRequested (snd (showPlanFromManagerVehicle ops s)) = False
        \<and> (\<exists>es. emitted (snd (showPlanFromManagerVehicle ops s)) = emitted s @ es @ [LoadComplete]))"
proof -
  let ?t = "s\<lparr>itemsRequested := True\<rparr>"
  have u: "managerLoadComplete ops ?t = (reconcile ops ?t)\<lparr>itemsRequested := False\<rparr>"
    by (simp add: managerLoadComplete_unfold)
  from reconcile_fields(7) [of ops ?t]
  obtain es where es: "emitted (reconcile ops ?t) = emitted s @ es @ [LoadComplete]" by auto
  have r: "polygons (reconcile ops ?t)
             = map (\<lambda>p. clean_polygon (polygon_copy ops p)) (manager_polygons (obstacleManager s))"
    "circles (reconcile ops ?t)
             = map (\<lambda>c. clean_circle (circle_copy ops c)) (manager_circles (obstacleManager s))"
    "breachReturnPoint (reconcile ops ?t) = manager_breachReturnPoint (obstacleManager s)"
    "\<not> dirty (reconcile ops ?t)"
    using reconcile_fields(2,3,4,6) [of ops ?t] by simp_all
  show ?thesis
    using es r
    by (simp add: showPlanFromManagerVehicle_def Let_def syncInProgress_def u)
qed

theorem showPlanFromManagerVehicle_cases_witness:
  "fst (showPlanFromManagerVehicle example_ops (example_controller\<lparr>offline := True\<rparr>)) = True
   \<and> snd (showPlanFromManagerVehicle example_ops (example_controller\<lparr>offline := True\<rparr>))
       = example_controller\<lparr>offline := True\<rparr>
   \<and> fst (showPlanFromManagerVehicle example_ops
            (example_controller\<lparr>obstacleManager := example_manager\<lparr>inProgress := True\<rparr>\<rparr>)) = True
   \<and> snd (showPlanFromManagerVehicle example_ops
            (example_controller\<lparr>obstacleManager := example_manager\<lparr>inProgress := True\<rparr>\<rparr>))
       = example_controller\<lparr>obstacleManager := example_manager\<lparr>inProgress := True\<rparr>,
                             itemsRequested := True\<rparr>
   \<and> fst (showPlanFromManagerVehicle example_ops example_controller) = False
   \<and> polygons (snd (showPlanFromManagerVehicle example_ops example_controller))
       = [example_polygon\<lparr>poly_interactive := False, poly_dirty := False\<rparr>]
   \<and> breachReturnPoint (snd (showPlanFromManagerVehicle example_ops example_controller))
       = \<lparr>latitude = Fin 46, longitude = Fin 7, altitude = Fin 30\<rparr>
   \<and> dirty (snd (showPlanFromManagerVehicle example_ops example_controller)) = False
   \<and> itemsRequested (snd (showPlanFromManagerVehicle example_ops example_controller)) = False"
proof -
  let ?off = "example_controller\<lparr>offline := True\<rparr>"
  let ?busy = "example_controller\<lparr>obstacleManager := example_manager\<lparr>inProgress := True\<rparr>\<rparr>"
  have g: "offline ?off" "\<not> offline ?busy" "syncInProgress ?busy"
    "\<not> offline example_controller"
    "initialPlanRequestComplete (managerVehicle example_controller)"
    "\<not> syncInProgress example_controller"
    by (simp_all add: example_controller_def example_manager_def example_vehicle_def
          syncInProgress_def)
  have m: "manager_polygons (obstacleManager example_controller) = [example_polygon]"
    "manager_breachReturnPoint (obstacleManager example_controller)
       = \<lparr>latitude = Fin 46, longitude = Fin 7, altitude = Fin 30\<rparr>"
    by (simp_all add: example_controller_def example_manager_def)
  have c: "clean_polygon (polygon_copy example_ops example_polygon)
             = example_polygon\<lparr>poly_interactive := False, poly_dirty := False\<rparr>"
    by (simp add: clean_polygon_def example_ops_def)
  show ?thesis
    using g m c
      showPlanFromManagerVehicle_cases [of example_ops ?off]
      showPlanFromManagerVehicle_cases [of example_ops ?busy]
      showPlanFromManagerVehicle_cases [of example_ops example_controller]
    by auto
qed

section \<open>Dirty flags\<close>

lemma shapes_clean_update [simp]:
  "shapes_clean (s\<lparr>breachReturnPoint := p\<rparr>) = shapes_clean s"
  "shapes_clean (s\<lparr>itemsRequested := b\<rparr>) = shapes_clean s"
  "shapes_clean (s\<lparr>obstacleManager := m\<rparr>) = shapes_clean s"
  "shapes_clean (s\<lparr>breachReturnAltitudeFact := a\<rparr>) = shapes_clean s"
  "shapes_clean (s\<lparr>emitted := es\<rparr>) = shapes_clean s"
  by (simp_all add: shapes_clean_def)

lemma shapes_clean_empty: "polygons s = [] \<Longrightarrow> circles s = [] \<Longrightarrow> shapes_clean s"
  by (simp add: shapes_clean_def)

lemma shapes_clean_setDirty_False:
  "dirty s \<or> shapes_clean s \<Longrightarrow> shapes_clean (setDirty False s)"
  by (auto simp add: shapes_clean_def setDirty_False_fields list_all_iff)

lemma dirty_setDirty_False:
  "dirty (setDirty False s) = (dirty s \<and> \<not> shapes_clean s)"
  by (auto simp add: shapes_clean_def setDirty_False_fields list_all_iff)

text \<open>
  With the notifications of the lists as the spec describes them (a change of
  membership raises \<open>_setDirty\<close>), every operation of the controller keeps a
  document that is not dirty free of dirty shapes, and a controller without
  shapes starts so.
\<close>

lemma dirty_covers_shapes_initial:
  "polygons s = [] \<Longrightarrow> circles s = [] \<Longrightarrow> dirty_covers_shapes s"
  by (simp add: dirty_covers_shapes_def shapes_clean_empty)

lemma dirty_covers_shapes_setDirty:
  "dirty_covers_shapes s \<Longrightarrow> dirty_covers_shapes (setDirty d s)"
  by (cases d) (simp_all add: dirty_covers_shapes_def shapes_clean_setDirty_False)

lemma dirty_covers_shapes_append:
  "dirty_covers_shapes (polygons_append p s)" "dirty_covers_shapes (circles_append c s)"
  by (simp_all add: dirty_covers_shapes_def)

lemma dirty_covers_shapes_shape_setDirty:
  assumes "dirty_covers_shapes s"
  shows "dirty_covers_shapes (polygon_setDirty i d s)"
    and "dirty_covers_shapes (circle_setDirty i d s)"
proof -
  have "polygon_setDirty i d s = s \<or> dirty (polygon_setDirty i d s)"
    by (simp add: polygon_setDirty_def)
  with assms show "dirty_covers_shapes (polygon_setDirty i d s)"
    by (auto simp add: dirty_covers_shapes_def)
  have "circle_setDirty i d s = s \<or> dirty (circle_setDirty i d s)"
    by (simp add: circle_setDirty_def)
  with assms show "dirty_covers_shapes (circle_setDirty i d s)"
    by (auto simp add: dirty_covers_shapes_def)
qed

lemma dirty_covers_shapes_removeAll: "dirty_covers_shapes (removeAll s)"
  by (simp add: dirty_covers_shapes_def shapes_clean_empty)

lemma dirty_covers_shapes_save:
  "dirty_covers_shapes s \<Longrightarrow> dirty_covers_shapes (snd (save ops s json0))"
  by (simp add: save_state dirty_covers_shapes_def)

lemma dirty_covers_shapes_load: "dirty_covers_shapes (snd (load ops json s))"
proof -
  let ?s0 = "removeAll s"
  let ?P = "toArray (obj_value json jsonPolygonsKey)"
  let ?C = "toArray (obj_value json jsonCirclesKey)"
  let ?lp = "load_polygons ops ?P ?s0"
  let ?lc = "load_circles ops ?C (snd ?lp)"
  let ?lb = "load_breachReturn json (snd ?lc)"
  note lp = load_polygons_fields [of ops ?P ?s0 "[]"]
  note lc = load_circles_fields [of ops ?C "snd ?lp" "[]"]
  have p: "dirty_covers_shapes (snd ?lp)"
    using lp by (cases "parsed_polygons ops ?P = []")
      (simp_all add: dirty_covers_shapes_def shapes_clean_empty)
  have c: "dirty_covers_shapes (snd ?lc)"
    using lp lc
    by (cases "parsed_polygons ops ?P = [] \<and> parsed_circles ops ?C = []")
      (auto simp add: dirty_covers_shapes_def shapes_clean_empty)
  have b: "dirty_covers_shapes (snd ?lb)"
  proof (cases "fst ?lb")
    case None
    from load_breachReturn_success(1,2) [OF None] show ?thesis
      by (simp add: dirty_covers_shapes_def shapes_clean_def list_all_iff)
  next
    case (Some e)
    from load_breachReturn_failure [OF Some] c show ?thesis by simp
  qed
  consider
      "snd (load ops json s) = ?s0"
    | "snd (load ops json s) = snd ?lp"
    | "snd (load ops json s) = snd ?lc"
    | "snd (load ops json s) = snd ?lb"
    using load_unfold [of ops json s] by (auto split: option.splits if_splits)
  then show ?thesis
    using p c b dirty_covers_shapes_removeAll [of s] by cases simp_all
qed

lemma dirty_covers_shapes_request:
  "dirty_covers_shapes s \<Longrightarrow> dirty_covers_shapes (request r s)"
proof (cases r)
  case SendToVehicle
  assume a: "dirty_covers_shapes s"
  let ?t = "s\<lparr>obstacleManager :=
               manager_call (Manager_sendToVehicle (breachReturnPoint s) (polygons s) (circles s))
                 (obstacleManager s)\<rparr>"
  from a have "dirty_covers_shapes ?t"
    by (simp add: dirty_covers_shapes_def)
  from dirty_covers_shapes_setDirty [OF this, of False] a SendToVehicle show ?thesis
    by (simp add: sendToVehicle_def)
qed (simp_all add: loadFromVehicle_def removeAllFromVehicle_def dirty_covers_shapes_def Let_def)

lemma dirty_covers_shapes_managerLoadComplete:
  "dirty_covers_shapes s \<Longrightarrow> dirty_covers_shapes (managerLoadComplete ops s)"
  by (simp add: managerLoadComplete_unfold dirty_covers_shapes_def shapes_clean_def
        reconcile_fields(2,3) list_all_iff)

lemma dirty_covers_shapes_showPlan:
  "dirty_covers_shapes s \<Longrightarrow> dirty_covers_shapes (snd (showPlanFromManagerVehicle ops s))"
proof -
  assume a: "dirty_covers_shapes s"
  then have "dirty_covers_shapes (s\<lparr>itemsRequested := True\<rparr>)"
    by (simp add: dirty_covers_shapes_def)
  from dirty_covers_shapes_managerLoadComplete [OF this, of ops] a show ?thesis
    by (simp add: showPlanFromManagerVehicle_def Let_def dirty_covers_shapes_def)
qed




section \<open>Capability gate\<close>

text \<open>
  C9.  Whatever single capability bit the fence constant names (bit \<open>n\<close>, the word
  \<open>2 ^ n\<close>), \<open>supported()\<close> is true exactly when that bit is set in the vehicle's
  capability bits and the protocol's major version (\<open>maxProtoVersion\<close> divided by
  100) is at least 2; with the bit set and major version 1 it is false.
\<close>

theorem supported_iff:
  "(supported (push_bit n 1) v \<longleftrightarrow> bit (capabilityBits v) n \<and> 2 \<le> maxProtoVersion v div 100)
   \<and> (bit (capabilityBits v) n \<and> maxProtoVersion v div 100 = 1 \<longrightarrow> \<not> supported (push_bit n 1) v)"
proof -
  have b: "(capabilityBits v AND push_bit n 1) \<noteq> 0 \<longleftrightarrow> bit (capabilityBits v) n"
    by (simp add: and_exp_eq_0_iff_not_bit push_bit_eq_mult)
  have d: "200 \<le> maxProtoVersion v \<longleftrightarrow> 2 \<le> maxProtoVersion v div 100"
    by arith
  show ?thesis
    unfolding supported_def b d by simp
qed

theorem supported_iff_witness:
  "\<not> supported (push_bit 5 1)
       \<lparr>capabilityBits = 32, maxProtoVersion = 100, initialPlanRequestComplete = True\<rparr>
   \<and> supported (push_bit 5 1)
       \<lparr>capabilityBits = 32, maxProtoVersion = 200, initialPlanRequestComplete = True\<rparr>
   \<and> \<not> supported (push_bit 5 1)
       \<lparr>capabilityBits = 31, maxProtoVersion = 200, initialPlanRequestComplete = True\<rparr>"
proof -
  have a: "bit (32 :: 64 word) 5" and b: "\<not> bit (31 :: 64 word) 5"
    by (simp_all add: bit_iff_odd_drop_bit)
  show ?thesis
    using a b
      supported_iff [of 5 "\<lparr>capabilityBits = 32, maxProtoVersion = 100, initialPlanRequestComplete = True\<rparr>"]
      supported_iff [of 5 "\<lparr>capabilityBits = 32, maxProtoVersion = 200, initialPlanRequestComplete = True\<rparr>"]
      supported_iff [of 5 "\<lparr>capabilityBits = 31, maxProtoVersion = 200, initialPlanRequestComplete = True\<rparr>"]
    by simp
qed

end
